theory Spec2Isabelle
  imports Main "HOL-Library.Multiset"
begin

section \<open>Data model\<close>

text \<open>
  The scheduler reads JSON-like dictionaries with \<^verbatim>\<open>d.get(key)\<close>. A field of such a
  dictionary is absent, present with the value \<^verbatim>\<open>None\<close>, or present with a value.
\<close>

datatype 'a jfield = Absent | JNull | JVal 'a

text \<open>
  \<^verbatim>\<open>x = d.get(key)\<close> followed by the test \<^verbatim>\<open>if x:\<close> on a string field: the
  absent field, \<^verbatim>\<open>None\<close> and the empty string are all false.
\<close>

fun truthy :: "string jfield \<Rightarrow> string option" where
  "truthy (JVal s) = (if s = [] then None else Some s)"
| "truthy JNull = None"
| "truthy Absent = None"

text \<open>A student request: the keys \<^verbatim>\<open>'student ID'\<close>, \<^verbatim>\<open>'Course code'\<close> and \<^verbatim>\<open>'Type'\<close>.\<close>

record request =
  student_ID :: "string jfield"
  Course_code :: "string jfield"
  req_Type :: "string jfield"

text \<open>An entry of \<^verbatim>\<open>course_details\<close>, with the keys the engine reads.\<close>

record course =
  num_sections :: int
  max_size :: int
  available_blocks :: "string list"
  unavailable_blocks :: "string list"

record rules =
  all_blocks :: "string list"
  priority_order :: "string list"

text \<open>
  The source builds the section key \<^verbatim>\<open>f"{course_code}_{section_num}"\<close> and the label
  \<^verbatim>\<open>f"{course_code} (Section {section_num})"\<close>, where \<^verbatim>\<open>section_num\<close> ranges over
  \<^verbatim>\<open>range(1, n + 1)\<close>. The decimal numeral of a positive integer holds neither an
  underscore nor a parenthesis, so both strings determine the pair they are built
  from; the model keeps the pair.
\<close>

type_synonym section_key = "string \<times> int"

record preprocessed =
  course_to_lecturer :: "section_key \<rightharpoonup> string"
  course_details :: "string \<rightharpoonup> course"
  course_requests :: "(string \<times> request list) list"

text \<open>
  The dictionaries that \<^verbatim>\<open>generate_schedule\<close> fills. A \<^verbatim>\<open>defaultdict(dict)\<close> is a
  total function into maps, a \<^verbatim>\<open>defaultdict(list)\<close> a total function into lists.
\<close>

record schedule =
  student_schedule :: "string \<Rightarrow> (string \<rightharpoonup> section_key)"
  teacher_schedule :: "string \<Rightarrow> (string \<rightharpoonup> section_key)"
  section_assignments :: "section_key \<Rightarrow> string list"
  section_blocks :: "section_key \<rightharpoonup> string"
  resolved :: "request list"
  unresolved :: "request list"

definition empty_schedule :: schedule where
  "empty_schedule =
     \<lparr>student_schedule = (\<lambda>_. Map.empty), teacher_schedule = (\<lambda>_. Map.empty),
      section_assignments = (\<lambda>_. []), section_blocks = Map.empty,
      resolved = [], unresolved = []\<rparr>"

section \<open>Code shared by both engines\<close>

text \<open>\<^verbatim>\<open>course_to_lecturer.get(section_key, f"unknown_{course_code}")\<close>\<close>

definition lecturer_of :: "preprocessed \<Rightarrow> section_key \<Rightarrow> string" where
  "lecturer_of pre section_key =
     (case course_to_lecturer pre section_key of
        Some lecturer_id \<Rightarrow> lecturer_id
      | None \<Rightarrow> ''unknown_'' @ fst section_key)"

text \<open>
  The tail of the section loop of the first pass, \<^verbatim>\<open>if best_block: ...\<close>: the block
  joins \<^verbatim>\<open>assigned_blocks\<close>, the section is bound and the lecturer's slot is taken.
  An empty block name is false in Python, so it binds nothing.
\<close>

definition bind_block ::
  "string \<Rightarrow> section_key \<Rightarrow> string option \<Rightarrow> string set \<times> schedule \<Rightarrow> string set \<times> schedule"
where
  "bind_block lecturer_id section_key best_block acc =
     (case best_block of
        None \<Rightarrow> acc
      | Some b \<Rightarrow>
          if b = [] then acc
          else (insert b (fst acc),
                (snd acc)\<lparr>section_blocks := (section_blocks (snd acc))(section_key \<mapsto> b),
                          teacher_schedule := (teacher_schedule (snd acc))
                            (lecturer_id := (teacher_schedule (snd acc) lecturer_id)(b \<mapsto> section_key))\<rparr>))"

text \<open>
  The section scan of the second pass: the first section of \<^verbatim>\<open>range(1, num_sections + 1)\<close>
  that has a block, has room, and whose block the student does not occupy.
\<close>

fun find_section ::
  "schedule \<Rightarrow> string \<Rightarrow> int \<Rightarrow> string \<Rightarrow> int list \<Rightarrow> (section_key \<times> string) option"
where
  "find_section st course_code max_sz student [] = None"
| "find_section st course_code max_sz student (section_num # rest) =
     (case section_blocks st (course_code, section_num) of
        None \<Rightarrow> find_section st course_code max_sz student rest
      | Some block \<Rightarrow>
          if block = [] \<or> max_sz \<le> int (length (section_assignments st (course_code, section_num)))
          then find_section st course_code max_sz student rest
          else if student_schedule st student block \<noteq> None
          then find_section st course_code max_sz student rest
          else Some ((course_code, section_num), block))"

text \<open>The body of \<^verbatim>\<open>for req in requests\<close> of the second pass.\<close>

definition assign_request :: "string \<Rightarrow> course \<Rightarrow> schedule \<Rightarrow> request \<Rightarrow> schedule" where
  "assign_request course_code c st req =
     (case truthy (student_ID req) of
        None \<Rightarrow> st\<lparr>unresolved := unresolved st @ [req]\<rparr>
      | Some student \<Rightarrow>
          (case find_section st course_code (max_size c) student [1..num_sections c] of
             None \<Rightarrow> st\<lparr>unresolved := unresolved st @ [req]\<rparr>
           | Some (section_key, block) \<Rightarrow>
               st\<lparr>student_schedule := (student_schedule st)
                     (student := (student_schedule st student)(block \<mapsto> section_key)),
                  section_assignments := (section_assignments st)
                     (section_key := section_assignments st section_key @ [student]),
                  resolved := resolved st @ [req]\<rparr>))"

text \<open>
  \<^verbatim>\<open>priority_map = {p: i for i, p in enumerate(rules['priority_order'])}\<close>: a later
  duplicate overwrites an earlier one.
\<close>

definition priority_map :: "string list \<Rightarrow> string \<rightharpoonup> nat" where
  "priority_map order = map_of (rev (zip order [0..<length order]))"

text \<open>\<^verbatim>\<open>priority_map.get(x.get('Type', 'Recommended'), 999)\<close>\<close>

definition priority_key :: "rules \<Rightarrow> request \<Rightarrow> nat" where
  "priority_key rl req =
     (case req_Type req of
        Absent \<Rightarrow> (case priority_map (priority_order rl) ''Recommended'' of Some i \<Rightarrow> i | None \<Rightarrow> 999)
      | JNull \<Rightarrow> 999
      | JVal t \<Rightarrow> (case priority_map (priority_order rl) t of Some i \<Rightarrow> i | None \<Rightarrow> 999))"

text \<open>
  Grouping of the requests by course code, in both \<^verbatim>\<open>preprocess_data\<close>: a
  \<^verbatim>\<open>defaultdict(list)\<close> keeps its keys in the order of first insertion.
\<close>

fun group_add :: "string \<Rightarrow> request \<Rightarrow> (string \<times> request list) list \<Rightarrow> (string \<times> request list) list" where
  "group_add k r [] = [(k, [r])]"
| "group_add k r ((k', rs) # g) =
     (if k = k' then (k', rs @ [r]) # g else (k', rs) # group_add k r g)"

definition group_step :: "(string \<times> request list) list \<Rightarrow> request \<Rightarrow> (string \<times> request list) list" where
  "group_step g req =
     (case truthy (Course_code req) of None \<Rightarrow> g | Some course_code \<Rightarrow> group_add course_code req g)"

definition group_requests :: "request list \<Rightarrow> (string \<times> request list) list" where
  "group_requests student_requests = foldl group_step [] student_requests"

section \<open>simple\_scheduler.py\<close>

text \<open>\<^verbatim>\<open>extract_rules_and_constraints\<close> of simple\_scheduler.py returns constants.\<close>

definition ss_extract_rules_and_constraints :: rules where
  "ss_extract_rules_and_constraints =
     \<lparr>all_blocks = [''1A'', ''1B'', ''2A'', ''2B'', ''3'', ''4A'', ''4B''],
      priority_order = [''Required'', ''Requested'', ''Recommended'']\<rparr>"

text \<open>
  The block scan of the first pass, \<^verbatim>\<open>for block in rules['all_blocks']\<close>, with its two
  \<^verbatim>\<open>continue\<close> tests and the \<^verbatim>\<open>break\<close>; \<open>busy\<close> is the lecturer's schedule.
\<close>

fun ss_find_block ::
  "string list \<Rightarrow> string list \<Rightarrow> string set \<Rightarrow> (string \<rightharpoonup> section_key) \<Rightarrow> string list \<Rightarrow> string option"
where
  "ss_find_block avail unavail assigned busy [] = None"
| "ss_find_block avail unavail assigned busy (block # rest) =
     (if block \<notin> set avail \<or> block \<in> set unavail \<or> block \<in> assigned
      then ss_find_block avail unavail assigned busy rest
      else if busy block \<noteq> None
      then ss_find_block avail unavail assigned busy rest
      else Some block)"

text \<open>
  \<^verbatim>\<open>available_blocks = course.get('available_blocks', rules['all_blocks'])\<close> and then
  \<^verbatim>\<open>if not available_blocks: available_blocks = rules['all_blocks']\<close>.
\<close>

definition ss_available :: "rules \<Rightarrow> course \<Rightarrow> string list" where
  "ss_available rl c = (if available_blocks c = [] then all_blocks rl else available_blocks c)"

definition ss_assign_section ::
  "rules \<Rightarrow> preprocessed \<Rightarrow> string \<Rightarrow> course \<Rightarrow> string set \<times> schedule \<Rightarrow> int \<Rightarrow> string set \<times> schedule"
where
  "ss_assign_section rl pre course_code c acc section_num =
     bind_block (lecturer_of pre (course_code, section_num)) (course_code, section_num)
       (ss_find_block (ss_available rl c) (unavailable_blocks c) (fst acc)
          (teacher_schedule (snd acc) (lecturer_of pre (course_code, section_num)))
          (all_blocks rl))
       acc"

text \<open>The body of the first pass, for one entry of \<^verbatim>\<open>course_requests.items()\<close>.\<close>

definition ss_first_pass :: "rules \<Rightarrow> preprocessed \<Rightarrow> schedule \<Rightarrow> string \<times> request list \<Rightarrow> schedule" where
  "ss_first_pass rl pre st entry =
     (case course_details pre (fst entry) of
        None \<Rightarrow> st\<lparr>unresolved := unresolved st @ snd entry\<rparr>
      | Some c \<Rightarrow>
          snd (foldl (ss_assign_section rl pre (fst entry) c) ({}, st) [1..num_sections c]))"

text \<open>
  The body of the second pass. \<^verbatim>\<open>requests.sort(key=...)\<close> is stable, as is
  \<open>sort_key\<close>.
\<close>

definition ss_second_pass :: "rules \<Rightarrow> preprocessed \<Rightarrow> schedule \<Rightarrow> string \<times> request list \<Rightarrow> schedule" where
  "ss_second_pass rl pre st entry =
     (case course_details pre (fst entry) of
        None \<Rightarrow> st
      | Some c \<Rightarrow> foldl (assign_request (fst entry) c) st (sort_key (priority_key rl) (snd entry)))"

definition ss_generate_schedule :: "rules \<Rightarrow> preprocessed \<Rightarrow> schedule" where
  "ss_generate_schedule rl pre =
     foldl (ss_second_pass rl pre)
       (foldl (ss_first_pass rl pre) empty_schedule (course_requests pre))
       (course_requests pre)"

section \<open>milestone2.py\<close>

text \<open>
  \<^verbatim>\<open>course = course_details.get(course_code, {})\<close> followed by
  \<^verbatim>\<open>course.get('num_sections', 1)\<close>, \<^verbatim>\<open>course.get('max_size', 25)\<close>,
  \<^verbatim>\<open>course.get('available_blocks', rules['all_blocks'])\<close> and
  \<^verbatim>\<open>course.get('unavailable_blocks', [])\<close>: an entry written by \<^verbatim>\<open>preprocess_data\<close>
  has all four keys, so the defaults are the parameters of a course without an entry.
\<close>

definition course_or_default :: "rules \<Rightarrow> preprocessed \<Rightarrow> string \<Rightarrow> course" where
  "course_or_default rl pre course_code =
     (case course_details pre course_code of
        Some c \<Rightarrow> c
      | None \<Rightarrow> \<lparr>num_sections = 1, max_size = 25,
                 available_blocks = all_blocks rl, unavailable_blocks = []\<rparr>)"

text \<open>\<^verbatim>\<open>r.get('Type', '') == req_type\<close>\<close>

definition has_type :: "string \<Rightarrow> request \<Rightarrow> bool" where
  "has_type req_type r =
     (case req_Type r of Absent \<Rightarrow> req_type = [] | JNull \<Rightarrow> False | JVal t \<Rightarrow> t = req_type)"

text \<open>The block scan of the first pass, \<^verbatim>\<open>for block in available_blocks\<close>.\<close>

fun m2_find_block ::
  "string list \<Rightarrow> string set \<Rightarrow> (string \<rightharpoonup> section_key) \<Rightarrow> string list \<Rightarrow> string option"
where
  "m2_find_block unavail assigned busy [] = None"
| "m2_find_block unavail assigned busy (block # rest) =
     (if block \<in> set unavail \<or> block \<in> assigned
      then m2_find_block unavail assigned busy rest
      else if busy block \<noteq> None
      then m2_find_block unavail assigned busy rest
      else Some block)"

definition m2_assign_section ::
  "preprocessed \<Rightarrow> string \<Rightarrow> course \<Rightarrow> string set \<times> schedule \<Rightarrow> int \<Rightarrow> string set \<times> schedule"
where
  "m2_assign_section pre course_code c acc section_num =
     bind_block (lecturer_of pre (course_code, section_num)) (course_code, section_num)
       (m2_find_block (unavailable_blocks c) (fst acc)
          (teacher_schedule (snd acc) (lecturer_of pre (course_code, section_num)))
          (available_blocks c))
       acc"

text \<open>
  The body of the inner loop of the first pass, for one tier and one entry of
  \<^verbatim>\<open>course_requests.items()\<close>. The whole pass runs inside one \<^verbatim>\<open>try\<close>: the
  division \<^verbatim>\<open>(len(type_requests) + max_size - 1) // max_size\<close> raises
  ZeroDivisionError when \<^verbatim>\<open>max_size\<close> is zero, and the handler only prints, so
  the rest of the pass is skipped and the schedule stays as it was at the raise. The
  first component of the accumulator says that the pass has raised. Python's \<^verbatim>\<open>//\<close>
  on integers is the floor division \<open>div\<close> of \<open>int\<close>.
\<close>

definition m2_first_pass ::
  "rules \<Rightarrow> preprocessed \<Rightarrow> string \<Rightarrow> bool \<times> schedule \<Rightarrow> string \<times> request list \<Rightarrow> bool \<times> schedule"
where
  "m2_first_pass rl pre req_type acc entry =
     (if fst acc then acc
      else if filter (has_type req_type) (snd entry) = [] then acc
      else if max_size (course_or_default rl pre (fst entry)) = 0 then (True, snd acc)
      else (False,
            snd (foldl (m2_assign_section pre (fst entry) (course_or_default rl pre (fst entry)))
                   ({}, snd acc)
                   [1..min (num_sections (course_or_default rl pre (fst entry)))
                          ((int (length (filter (has_type req_type) (snd entry)))
                             + max_size (course_or_default rl pre (fst entry)) - 1)
                           div max_size (course_or_default rl pre (fst entry)))])))"

definition m2_first_pass_all :: "rules \<Rightarrow> preprocessed \<Rightarrow> schedule \<Rightarrow> bool \<times> schedule" where
  "m2_first_pass_all rl pre st =
     foldl (\<lambda>acc req_type. foldl (m2_first_pass rl pre req_type) acc (course_requests pre))
       (False, st) (priority_order rl)"

text \<open>The body of the inner loop of the second pass.\<close>

definition m2_second_pass ::
  "rules \<Rightarrow> preprocessed \<Rightarrow> string \<Rightarrow> schedule \<Rightarrow> string \<times> request list \<Rightarrow> schedule"
where
  "m2_second_pass rl pre req_type st entry =
     foldl (assign_request (fst entry) (course_or_default rl pre (fst entry))) st
       (filter (has_type req_type) (snd entry))"

definition m2_second_pass_all :: "rules \<Rightarrow> preprocessed \<Rightarrow> schedule \<Rightarrow> schedule" where
  "m2_second_pass_all rl pre st =
     foldl (\<lambda>st req_type. foldl (m2_second_pass rl pre req_type) st (course_requests pre))
       st (priority_order rl)"

text \<open>
  \<^verbatim>\<open>generate_schedule\<close> of milestone2.py. It returns empty results when one of its
  arguments is false; \<^verbatim>\<open>rules\<close> and \<^verbatim>\<open>preprocessed_data\<close> are dictionaries with
  keys, so the test is on \<^verbatim>\<open>data\<close>, here the flag \<open>data_given\<close>.
\<close>

definition m2_generate_schedule :: "bool \<Rightarrow> rules \<Rightarrow> preprocessed \<Rightarrow> schedule" where
  "m2_generate_schedule data_given rl pre =
     (if \<not> data_given then empty_schedule
      else m2_second_pass_all rl pre (snd (m2_first_pass_all rl pre empty_schedule)))"

text \<open>
  The request part of \<^verbatim>\<open>preprocess_data\<close>: simple\_scheduler.py groups the requests,
  milestone2.py groups them and sorts every group by priority.
\<close>

definition ss_preprocess_requests :: "request list \<Rightarrow> (string \<times> request list) list" where
  "ss_preprocess_requests student_requests = group_requests student_requests"

definition m2_preprocess_requests :: "rules \<Rightarrow> request list \<Rightarrow> (string \<times> request list) list" where
  "m2_preprocess_requests rl student_requests =
     map (\<lambda>entry. (fst entry, sort_key (priority_key rl) (snd entry))) (group_requests student_requests)"

text \<open>
  \<^verbatim>\<open>extract_rules_and_constraints\<close> of milestone2.py: the block list is the sorted
  union of the available blocks of all courses (or a default list), here the
  parameter \<open>blocks\<close>; the priority order is the constant list \<open>tiers\<close>, the one of
  simple\_scheduler.py.
\<close>

definition tiers :: "string list" where
  "tiers = [''Required'', ''Requested'', ''Recommended'']"

definition m2_rules :: "string list \<Rightarrow> rules" where
  "m2_rules blocks = \<lparr>all_blocks = blocks, priority_order = [''Required'', ''Requested'', ''Recommended'']\<rparr>"

section \<open>The order of the attempts\<close>

text \<open>
  The second pass of either engine runs \<open>assign_request\<close> over a sequence of
  requests, each with the code of the course whose group holds it. The sequences
  below list them in the order of the loops of the source (lemmas
  \<open>ss_generate_schedule_flat\<close> and \<open>m2_generate_schedule_flat\<close>).
\<close>

definition run_attempts :: "rules \<Rightarrow> preprocessed \<Rightarrow> schedule \<Rightarrow> (string \<times> request) list \<Rightarrow> schedule" where
  "run_attempts rl pre st attempts =
     foldl (\<lambda>st a. assign_request (fst a) (course_or_default rl pre (fst a)) st (snd a)) st attempts"

definition ss_course_attempts :: "rules \<Rightarrow> preprocessed \<Rightarrow> string \<times> request list \<Rightarrow> (string \<times> request) list" where
  "ss_course_attempts rl pre entry =
     (case course_details pre (fst entry) of
        None \<Rightarrow> []
      | Some c \<Rightarrow> map (Pair (fst entry)) (sort_key (priority_key rl) (snd entry)))"

definition ss_attempts :: "rules \<Rightarrow> preprocessed \<Rightarrow> (string \<times> request) list" where
  "ss_attempts rl pre = concat (map (ss_course_attempts rl pre) (course_requests pre))"

definition m2_tier_attempts :: "preprocessed \<Rightarrow> string \<Rightarrow> (string \<times> request) list" where
  "m2_tier_attempts pre req_type =
     concat (map (\<lambda>entry. map (Pair (fst entry)) (filter (has_type req_type) (snd entry)))
               (course_requests pre))"

definition m2_attempts :: "rules \<Rightarrow> preprocessed \<Rightarrow> (string \<times> request) list" where
  "m2_attempts rl pre = concat (map (m2_tier_attempts pre) (priority_order rl))"

text \<open>
  The schedule in the second pass after the first \<open>n\<close> attempts; with \<open>n\<close> the number
  of attempts it is the result of \<^verbatim>\<open>generate_schedule\<close>.
\<close>

definition ss_progress :: "rules \<Rightarrow> preprocessed \<Rightarrow> nat \<Rightarrow> schedule" where
  "ss_progress rl pre n =
     run_attempts rl pre (foldl (ss_first_pass rl pre) empty_schedule (course_requests pre))
       (take n (ss_attempts rl pre))"

definition m2_progress :: "rules \<Rightarrow> preprocessed \<Rightarrow> nat \<Rightarrow> schedule" where
  "m2_progress rl pre n =
     run_attempts rl pre (snd (m2_first_pass_all rl pre empty_schedule)) (take n (m2_attempts rl pre))"

text \<open>
  The accumulator of the section loop of simple\_scheduler.py when it reaches section
  \<open>n\<close> of the course \<open>code\<close>: the courses \<open>es1\<close> and the sections \<open>1\<close> to \<open>n - 1\<close> are done.
\<close>

definition ss_before_section ::
  "rules \<Rightarrow> preprocessed \<Rightarrow> (string \<times> request list) list \<Rightarrow> string \<Rightarrow> course \<Rightarrow> int \<Rightarrow> string set \<times> schedule"
where
  "ss_before_section rl pre es1 code c n =
     foldl (ss_assign_section rl pre code c) ({}, foldl (ss_first_pass rl pre) empty_schedule es1) [1..n - 1]"




text \<open>
  The requests that the first pass of simple\_scheduler.py marks unresolved: those of
  the courses without details.
\<close>

definition unknown_requests :: "preprocessed \<Rightarrow> (string \<times> request list) list \<Rightarrow> request list" where
  "unknown_requests pre es = concat (map snd (filter (\<lambda>e. course_details pre (fst e) = None) es))"

section \<open>Invariants\<close>

text \<open>
  Every student of a roster has the block of the section in the own schedule, bound to
  that section, and no roster holds a student twice.
\<close>

definition seated :: "schedule \<Rightarrow> bool" where
  "seated st \<longleftrightarrow>
     (\<forall>s k. s \<in> set (section_assignments st k) \<longrightarrow>
        (\<exists>b. section_blocks st k = Some b \<and> student_schedule st s b = Some k)) \<and>
     (\<forall>k. distinct (section_assignments st k))"

text \<open>
  In simple\_scheduler.py only sections of courses with details are bound or entered
  into a schedule.
\<close>

definition known_sections :: "preprocessed \<Rightarrow> schedule \<Rightarrow> bool" where
  "known_sections pre st \<longleftrightarrow>
     (\<forall>k. section_blocks st k \<noteq> None \<longrightarrow> course_details pre (fst k) \<noteq> None) \<and>
     (\<forall>l b k. teacher_schedule st l b = Some k \<longrightarrow> course_details pre (fst k) \<noteq> None) \<and>
     (\<forall>s b k. student_schedule st s b = Some k \<longrightarrow> course_details pre (fst k) \<noteq> None)"

text \<open>
  Every request of a group carries the course code of the group.
\<close>

definition grouped_by_code :: "(string \<times> request list) list \<Rightarrow> bool" where
  "grouped_by_code g \<longleftrightarrow> (\<forall>e\<in>set g. \<forall>r\<in>set (snd e). truthy (Course_code r) = Some (fst e))"

text \<open>
  In the section loop the set \<^verbatim>\<open>assigned_blocks\<close> holds the blocks bound to the sections
  of the course.
\<close>

definition claimed_ok :: "string \<Rightarrow> string set \<times> schedule \<Rightarrow> bool" where
  "claimed_ok code acc \<longleftrightarrow> fst acc = {b. \<exists>m. section_blocks (snd acc) (code, m) = Some b}"

section \<open>The selection rule of the specification\<close>

text \<open>
  The selection rule in the words of the specification: a block is eligible for a
  section when it is (a) in the course's eligible set, (b) not in its excluded set,
  (c) not bound to a section of the same course, and (d) free in the lecturer's
  schedule; the section takes the first eligible block of the block list.
\<close>

definition spec_eligible ::
  "string list \<Rightarrow> string list \<Rightarrow> (section_key \<rightharpoonup> string) \<Rightarrow> string \<Rightarrow> (string \<rightharpoonup> section_key) \<Rightarrow> string \<Rightarrow> bool"
where
  "spec_eligible eligible excluded bindings course_code lecturer_schedule b \<longleftrightarrow>
     b \<in> set eligible \<and> b \<notin> set excluded \<and>
     (\<forall>m. bindings (course_code, m) \<noteq> Some b) \<and> lecturer_schedule b = None"

definition spec_first_fit :: "string list \<Rightarrow> (string \<Rightarrow> bool) \<Rightarrow> string \<Rightarrow> bool" where
  "spec_first_fit blocks ok b \<longleftrightarrow>
     (\<exists>i<length blocks. blocks ! i = b \<and> ok b \<and> (\<forall>j<i. \<not> ok (blocks ! j)))"

text \<open>
  The selection rule without the test (a): a block is open for a section when it is
  (b) not in the excluded set, (c) not bound to a section of the same course, and
  (d) free in the lecturer's schedule.
\<close>

definition spec_eligible_open ::
  "string list \<Rightarrow> (section_key \<rightharpoonup> string) \<Rightarrow> string \<Rightarrow> (string \<rightharpoonup> section_key) \<Rightarrow> string \<Rightarrow> bool"
where
  "spec_eligible_open excluded bindings course_code lecturer_schedule b \<longleftrightarrow>
     b \<notin> set excluded \<and> (\<forall>m. bindings (course_code, m) \<noteq> Some b) \<and> lecturer_schedule b = None"

section \<open>Concrete inputs\<close>

text \<open>
  The scenario of one course \<^verbatim>\<open>BIB9\<close> with two sections of two seats, the eligible blocks
  \<^verbatim>\<open>1A\<close> and \<^verbatim>\<open>1B\<close>, and five Required requests of the students \<^verbatim>\<open>S1\<close> to \<^verbatim>\<open>S5\<close>,
  with any lecturer map: the state expected after the first pass and the outcome.
\<close>

definition bib9_request :: "string \<Rightarrow> request" where
  "bib9_request s = \<lparr>student_ID = JVal s, Course_code = JVal ''BIB9'', req_Type = JVal ''Required''\<rparr>"

definition bib9_requests :: "request list" where
  "bib9_requests = map bib9_request [''S1'', ''S2'', ''S3'', ''S4'', ''S5'']"

definition bib9_course :: course where
  "bib9_course = \<lparr>num_sections = 2, max_size = 2,
       available_blocks = [''1A'', ''1B''], unavailable_blocks = []\<rparr>"

definition bib9_pre :: "(section_key \<rightharpoonup> string) \<Rightarrow> (string \<times> request list) list \<Rightarrow> preprocessed" where
  "bib9_pre lect groups = \<lparr>course_to_lecturer = lect, course_details = [''BIB9'' \<mapsto> bib9_course], course_requests = groups\<rparr>"

definition bib9_bound :: "schedule \<Rightarrow> bool" where
  "bib9_bound st \<longleftrightarrow>
     section_blocks st (''BIB9'', 1) = Some ''1A'' \<and> section_blocks st (''BIB9'', 2) = Some ''1B'' \<and>
     section_assignments st = (\<lambda>_. []) \<and> student_schedule st = (\<lambda>_. Map.empty) \<and>
     resolved st = [] \<and> unresolved st = []"

definition bib9_outcome :: "schedule \<Rightarrow> bool" where
  "bib9_outcome st \<longleftrightarrow>
     section_blocks st (''BIB9'', 1) = Some ''1A'' \<and> section_blocks st (''BIB9'', 2) = Some ''1B'' \<and>
     section_assignments st (''BIB9'', 1) = [''S1'', ''S2''] \<and>
     section_assignments st (''BIB9'', 2) = [''S3'', ''S4''] \<and>
     resolved st = map bib9_request [''S1'', ''S2'', ''S3'', ''S4''] \<and>
     unresolved st = [bib9_request ''S5'']"

text \<open>
  One student with a Requested request for \<^verbatim>\<open>ART1\<close> ahead of a Required request for
  \<^verbatim>\<open>BIB9\<close>; either course has one section and the block \<^verbatim>\<open>1A\<close> only.
\<close>

definition art1_request :: request where
  "art1_request = \<lparr>student_ID = JVal ''S1'', Course_code = JVal ''ART1'', req_Type = JVal ''Requested''\<rparr>"

definition bib9_s1_request :: request where
  "bib9_s1_request = \<lparr>student_ID = JVal ''S1'', Course_code = JVal ''BIB9'', req_Type = JVal ''Required''\<rparr>"

definition swap_requests :: "request list" where
  "swap_requests = [art1_request, bib9_s1_request]"

definition one_block_course :: course where
  "one_block_course = \<lparr>num_sections = 1, max_size = 25, available_blocks = [''1A''], unavailable_blocks = []\<rparr>"

definition swap_pre :: "(string \<times> request list) list \<Rightarrow> preprocessed" where
  "swap_pre groups =
     \<lparr>course_to_lecturer = Map.empty,
      course_details = [''ART1'' \<mapsto> one_block_course, ''BIB9'' \<mapsto> one_block_course],
      course_requests = groups\<rparr>"

text \<open>
  Requests with an empty course code, without the key \<^verbatim>\<open>Type\<close>, and for a course
  \<^verbatim>\<open>XYZ1\<close> that has no details.
\<close>

definition uncoded_request :: request where
  "uncoded_request = \<lparr>student_ID = JVal ''S1'', Course_code = JVal [], req_Type = JVal ''Required''\<rparr>"

definition untyped_request :: request where
  "untyped_request = \<lparr>student_ID = JVal ''S1'', Course_code = JVal ''BIB9'', req_Type = Absent\<rparr>"

definition stray_request :: request where
  "stray_request = \<lparr>student_ID = JVal ''S1'', Course_code = JVal ''XYZ1'', req_Type = JVal ''Required''\<rparr>"

definition stray_pre :: "(string \<times> request list) list \<Rightarrow> preprocessed" where
  "stray_pre groups = \<lparr>course_to_lecturer = Map.empty, course_details = Map.empty, course_requests = groups\<rparr>"

text \<open>
  One course \<^verbatim>\<open>BIB9\<close> with one section: with the blocks \<^verbatim>\<open>1A\<close>, \<^verbatim>\<open>1B\<close> available and a
  Required and a Requested request; with no available block listed and \<^verbatim>\<open>1A\<close>
  excluded; with the available blocks in the order \<^verbatim>\<open>1B\<close>, \<^verbatim>\<open>1A\<close>.
\<close>

definition two_tier_requests :: "request list" where
  "two_tier_requests =
     [\<lparr>student_ID = JVal ''S1'', Course_code = JVal ''BIB9'', req_Type = JVal ''Required''\<rparr>,
      \<lparr>student_ID = JVal ''S2'', Course_code = JVal ''BIB9'', req_Type = JVal ''Requested''\<rparr>]"

definition two_block_pre :: "(string \<times> request list) list \<Rightarrow> preprocessed" where
  "two_block_pre groups =
     \<lparr>course_to_lecturer = Map.empty,
      course_details = [''BIB9'' \<mapsto> \<lparr>num_sections = 1, max_size = 25,
                         available_blocks = [''1A'', ''1B''], unavailable_blocks = []\<rparr>],
      course_requests = groups\<rparr>"


definition open_course :: course where
  "open_course = \<lparr>num_sections = 1, max_size = 25, available_blocks = [], unavailable_blocks = [''1A'']\<rparr>"


definition one_course_pre :: "course \<Rightarrow> (string \<times> request list) list \<Rightarrow> preprocessed" where
  "one_course_pre c groups =
     \<lparr>course_to_lecturer = Map.empty, course_details = [''BIB9'' \<mapsto> c], course_requests = groups\<rparr>"

section \<open>The second pass as one run of attempts\<close>

lemma run_attempts_append: "run_attempts rl pre st (xs @ ys) = run_attempts rl pre (run_attempts rl pre st xs) ys"
  by (simp add: run_attempts_def)

lemma run_attempts_map_Pair:
  "run_attempts rl pre st (map (Pair k) rs) = foldl (assign_request k (course_or_default rl pre k)) st rs"
  by (induction rs arbitrary: st) (simp_all add: run_attempts_def)

lemma m2_second_pass_flat:
  "foldl (m2_second_pass rl pre t) st es =
   run_attempts rl pre st (concat (map (\<lambda>entry. map (Pair (fst entry)) (filter (has_type t) (snd entry))) es))"
  by (induction es arbitrary: st)
     (simp_all add: run_attempts_append run_attempts_map_Pair m2_second_pass_def, simp add: run_attempts_def)

lemma m2_second_pass_all_flat_aux:
  "foldl (\<lambda>st req_type. foldl (m2_second_pass rl pre req_type) st (course_requests pre)) st ts =
   run_attempts rl pre st (concat (map (m2_tier_attempts pre) ts))"
  by (induction ts arbitrary: st)
     (simp_all add: run_attempts_append m2_second_pass_flat m2_tier_attempts_def, simp add: run_attempts_def)

lemma m2_second_pass_all_flat:
  "m2_second_pass_all rl pre st = run_attempts rl pre st (m2_attempts rl pre)"
  by (simp add: m2_second_pass_all_def m2_attempts_def m2_second_pass_all_flat_aux)

lemma ss_second_pass_flat_aux:
  "foldl (ss_second_pass rl pre) st es =
   run_attempts rl pre st (concat (map (ss_course_attempts rl pre) es))"
proof (induction es arbitrary: st)
  case Nil
  then show ?case by (simp add: run_attempts_def)
next
  case (Cons e es)
  have "ss_second_pass rl pre st e = run_attempts rl pre st (ss_course_attempts rl pre e)"
    by (simp add: ss_second_pass_def ss_course_attempts_def run_attempts_map_Pair course_or_default_def
          split: option.splits, simp add: run_attempts_def)
  then show ?case using Cons by (simp add: run_attempts_append)
qed

lemma run_attempts_Nil [simp]: "run_attempts rl pre st [] = st"
  by (simp add: run_attempts_def)

lemma run_attempts_snoc:
  "run_attempts rl pre st (as @ [a]) =
   assign_request (fst a) (course_or_default rl pre (fst a)) (run_attempts rl pre st as) (snd a)"
  by (simp add: run_attempts_def)

subsection \<open>The request step\<close>

lemma find_section_Some:
  "find_section st course_code max_sz student ns = Some (k, b) \<Longrightarrow>
   \<exists>n\<in>set ns. k = (course_code, n) \<and> section_blocks st k = Some b \<and> b \<noteq> [] \<and>
     int (length (section_assignments st k)) < max_sz \<and> student_schedule st student b = None"
  by (induction ns) (auto split: option.splits if_splits simp del: not_None_eq split_paired_All)

lemma assign_request_cases:
  obtains (unres) "assign_request course_code c st req = st\<lparr>unresolved := unresolved st @ [req]\<rparr>"
  | (res) student n b where
      "truthy (student_ID req) = Some student"
      "n \<in> set [1..num_sections c]"
      "section_blocks st (course_code, n) = Some b" "b \<noteq> []"
      "int (length (section_assignments st (course_code, n))) < max_size c"
      "student_schedule st student b = None"
      "assign_request course_code c st req =
         st\<lparr>student_schedule := (student_schedule st)
               (student := (student_schedule st student)(b \<mapsto> (course_code, n))),
            section_assignments := (section_assignments st)
               ((course_code, n) := section_assignments st (course_code, n) @ [student]),
            resolved := resolved st @ [req]\<rparr>"
proof (cases "truthy (student_ID req)")
  case None
  then show ?thesis using unres by (simp add: assign_request_def)
next
  case (Some student)
  show ?thesis
  proof (cases "find_section st course_code (max_size c) student [1..num_sections c]")
    case None
    then show ?thesis using unres Some by (simp add: assign_request_def)
  next
    case (Some kb)
    obtain k b where kb: "kb = (k, b)" by (cases kb)
    from find_section_Some[OF Some[unfolded kb]]
    obtain n where n: "n \<in> set [1..num_sections c]" "k = (course_code, n)"
      "section_blocks st k = Some b" "b \<noteq> []"
      "int (length (section_assignments st k)) < max_size c" "student_schedule st student b = None"
      by blast
    show ?thesis
      using res[of student n b] n Some kb \<open>truthy (student_ID req) = Some student\<close>
      by (simp add: assign_request_def)
  qed
qed

lemma assign_request_blocks [simp]:
  "section_blocks (assign_request course_code c st req) = section_blocks st"
  "teacher_schedule (assign_request course_code c st req) = teacher_schedule st"
  by (simp_all add: assign_request_def split: option.splits prod.splits)

lemma assign_request_classifies:
  "(resolved (assign_request course_code c st req) = resolved st @ [req] \<and>
    unresolved (assign_request course_code c st req) = unresolved st) \<or>
   (resolved (assign_request course_code c st req) = resolved st \<and>
    unresolved (assign_request course_code c st req) = unresolved st @ [req])"
  by (simp add: assign_request_def split: option.splits prod.splits)

lemma assign_request_mset:
  "mset (resolved (assign_request course_code c st req)) + mset (unresolved (assign_request course_code c st req)) =
   mset (resolved st) + mset (unresolved st) + {#req#}"
  using assign_request_classifies[of course_code c st req] by auto

lemma assign_request_other_course:
  "fst k \<noteq> code \<Longrightarrow> section_assignments (assign_request code c st req) k = section_assignments st k"
  by (cases rule: assign_request_cases[of code c st req]) auto

lemma run_attempts_blocks [simp]:
  "section_blocks (run_attempts rl pre st as) = section_blocks st"
  "teacher_schedule (run_attempts rl pre st as) = teacher_schedule st"
  by (induction as rule: rev_induct) (simp_all add: run_attempts_snoc)

lemma run_attempts_mset:
  "mset (resolved (run_attempts rl pre st as)) + mset (unresolved (run_attempts rl pre st as)) =
   mset (resolved st) + mset (unresolved st) + mset (map snd as)"
  by (induction as rule: rev_induct) (simp_all add: run_attempts_snoc assign_request_mset)

lemma run_attempts_other_course:
  "fst k \<notin> fst ` set as \<Longrightarrow> section_assignments (run_attempts rl pre st as) k = section_assignments st k"
  by (induction as rule: rev_induct) (simp_all add: run_attempts_snoc assign_request_other_course)

lemma run_attempts_unresolved_grows:
  "set (unresolved st) \<subseteq> set (unresolved (run_attempts rl pre st as))"
proof (induction as rule: rev_induct)
  case Nil
  then show ?case by simp
next
  case (snoc a as)
  then show ?case
    using assign_request_classifies[of "fst a" "course_or_default rl pre (fst a)" "run_attempts rl pre st as" "snd a"]
    by (auto simp: run_attempts_snoc)
qed

lemma run_attempts_resolved_subset:
  "set (resolved (run_attempts rl pre st as)) \<subseteq> set (resolved st) \<union> snd ` set as"
proof (induction as rule: rev_induct)
  case Nil
  then show ?case by simp
next
  case (snoc a as)
  then show ?case
    using assign_request_classifies[of "fst a" "course_or_default rl pre (fst a)" "run_attempts rl pre st as" "snd a"]
    by (auto simp: run_attempts_snoc)
qed

subsection \<open>The first pass leaves the students alone\<close>

lemma bind_block_keeps [simp]:
  "resolved (snd (bind_block l k best acc)) = resolved (snd acc)"
  "unresolved (snd (bind_block l k best acc)) = unresolved (snd acc)"
  "section_assignments (snd (bind_block l k best acc)) = section_assignments (snd acc)"
  "student_schedule (snd (bind_block l k best acc)) = student_schedule (snd acc)"
  by (simp_all add: bind_block_def split: option.splits)

lemma ss_sections_keep [simp]:
  "resolved (snd (foldl (ss_assign_section rl pre code c) acc ns)) = resolved (snd acc)"
  "unresolved (snd (foldl (ss_assign_section rl pre code c) acc ns)) = unresolved (snd acc)"
  "section_assignments (snd (foldl (ss_assign_section rl pre code c) acc ns)) = section_assignments (snd acc)"
  "student_schedule (snd (foldl (ss_assign_section rl pre code c) acc ns)) = student_schedule (snd acc)"
  by (induction ns arbitrary: acc) (simp_all add: ss_assign_section_def)

lemma m2_sections_keep [simp]:
  "resolved (snd (foldl (m2_assign_section pre code c) acc ns)) = resolved (snd acc)"
  "unresolved (snd (foldl (m2_assign_section pre code c) acc ns)) = unresolved (snd acc)"
  "section_assignments (snd (foldl (m2_assign_section pre code c) acc ns)) = section_assignments (snd acc)"
  "student_schedule (snd (foldl (m2_assign_section pre code c) acc ns)) = student_schedule (snd acc)"
  by (induction ns arbitrary: acc) (simp_all add: m2_assign_section_def)

lemma m2_first_pass_keeps [simp]:
  "resolved (snd (m2_first_pass rl pre t acc e)) = resolved (snd acc)"
  "unresolved (snd (m2_first_pass rl pre t acc e)) = unresolved (snd acc)"
  "section_assignments (snd (m2_first_pass rl pre t acc e)) = section_assignments (snd acc)"
  "student_schedule (snd (m2_first_pass rl pre t acc e)) = student_schedule (snd acc)"
  by (simp_all add: m2_first_pass_def)

lemma m2_first_pass_fold_keeps [simp]:
  "resolved (snd (foldl (m2_first_pass rl pre t) acc es)) = resolved (snd acc)"
  "unresolved (snd (foldl (m2_first_pass rl pre t) acc es)) = unresolved (snd acc)"
  "section_assignments (snd (foldl (m2_first_pass rl pre t) acc es)) = section_assignments (snd acc)"
  "student_schedule (snd (foldl (m2_first_pass rl pre t) acc es)) = student_schedule (snd acc)"
  by (induction es arbitrary: acc) simp_all

lemma m2_first_pass_tiers_keeps:
  "resolved (snd (foldl (\<lambda>acc t. foldl (m2_first_pass rl pre t) acc es) acc ts)) = resolved (snd acc)"
  "unresolved (snd (foldl (\<lambda>acc t. foldl (m2_first_pass rl pre t) acc es) acc ts)) = unresolved (snd acc)"
  "section_assignments (snd (foldl (\<lambda>acc t. foldl (m2_first_pass rl pre t) acc es) acc ts)) = section_assignments (snd acc)"
  "student_schedule (snd (foldl (\<lambda>acc t. foldl (m2_first_pass rl pre t) acc es) acc ts)) = student_schedule (snd acc)"
  by (induction ts arbitrary: acc) simp_all

lemma m2_first_pass_all_keeps [simp]:
  "resolved (snd (m2_first_pass_all rl pre st)) = resolved st"
  "unresolved (snd (m2_first_pass_all rl pre st)) = unresolved st"
  "section_assignments (snd (m2_first_pass_all rl pre st)) = section_assignments st"
  "student_schedule (snd (m2_first_pass_all rl pre st)) = student_schedule st"
  by (simp_all add: m2_first_pass_all_def m2_first_pass_tiers_keeps)

lemma ss_first_pass_keeps [simp]:
  "resolved (ss_first_pass rl pre st e) = resolved st"
  "section_assignments (ss_first_pass rl pre st e) = section_assignments st"
  "student_schedule (ss_first_pass rl pre st e) = student_schedule st"
  by (simp_all add: ss_first_pass_def split: option.splits)

lemma ss_first_pass_unresolved:
  "unresolved (ss_first_pass rl pre st e) =
   unresolved st @ (if course_details pre (fst e) = None then snd e else [])"
  by (simp add: ss_first_pass_def split: option.splits)

lemma ss_first_pass_fold_keeps [simp]:
  "resolved (foldl (ss_first_pass rl pre) st es) = resolved st"
  "section_assignments (foldl (ss_first_pass rl pre) st es) = section_assignments st"
  "student_schedule (foldl (ss_first_pass rl pre) st es) = student_schedule st"
  by (induction es arbitrary: st) simp_all

lemma ss_first_pass_fold_unresolved:
  "unresolved (foldl (ss_first_pass rl pre) st es) = unresolved st @ unknown_requests pre es"
  by (induction es arbitrary: st) (simp_all add: unknown_requests_def ss_first_pass_unresolved)

lemma first_pass_rosters [simp]:
  "section_assignments (foldl (ss_first_pass rl pre) empty_schedule es) k = []"
  "section_assignments (snd (m2_first_pass_all rl pre empty_schedule)) k = []"
  by (simp_all add: empty_schedule_def)

subsection \<open>Both passes\<close>

lemma ss_generate_schedule_flat:
  "ss_generate_schedule rl pre =
   run_attempts rl pre (foldl (ss_first_pass rl pre) empty_schedule (course_requests pre)) (ss_attempts rl pre)"
  by (simp add: ss_generate_schedule_def ss_second_pass_flat_aux ss_attempts_def)

lemma m2_generate_schedule_flat:
  "m2_generate_schedule True rl pre =
   run_attempts rl pre (snd (m2_first_pass_all rl pre empty_schedule)) (m2_attempts rl pre)"
  by (simp add: m2_generate_schedule_def m2_second_pass_all_flat)

lemma ss_progress_final: "ss_progress rl pre (length (ss_attempts rl pre)) = ss_generate_schedule rl pre"
  by (simp add: ss_progress_def ss_generate_schedule_flat)

lemma m2_progress_final: "m2_progress rl pre (length (m2_attempts rl pre)) = m2_generate_schedule True rl pre"
  by (simp add: m2_progress_def m2_generate_schedule_flat)

lemma ss_attempts_known:
  assumes "a \<in> set (ss_attempts rl pre)"
  shows "course_details pre (fst a) \<noteq> None"
proof -
  from assms obtain e where "a \<in> set (ss_course_attempts rl pre e)"
    by (auto simp: ss_attempts_def)
  then show ?thesis
    by (cases "course_details pre (fst e)") (auto simp: ss_course_attempts_def)
qed

lemma ss_attempts_origin:
  assumes "a \<in> set (ss_attempts rl pre)"
  shows "\<exists>rs. (fst a, rs) \<in> set (course_requests pre) \<and> snd a \<in> set rs"
proof -
  from assms obtain e where e: "e \<in> set (course_requests pre)" "a \<in> set (ss_course_attempts rl pre e)"
    by (auto simp: ss_attempts_def)
  then have "fst a = fst e \<and> snd a \<in> set (snd e)"
    by (cases "course_details pre (fst e)") (auto simp: ss_course_attempts_def)
  then show ?thesis using e(1) by (cases e) auto
qed

subsection \<open>Evaluation on concrete inputs\<close>

lemmas ss_eval =
  ss_generate_schedule_def ss_first_pass_def ss_second_pass_def ss_assign_section_def
  bind_block_def ss_available_def lecturer_of_def assign_request_def
  ss_preprocess_requests_def group_requests_def group_step_def
  priority_key_def priority_map_def empty_schedule_def ss_extract_rules_and_constraints_def
  upto.simps upt_rec

lemmas m2_eval =
  m2_generate_schedule_def m2_first_pass_all_def m2_first_pass_def m2_second_pass_all_def
  m2_second_pass_def m2_assign_section_def course_or_default_def has_type_def
  bind_block_def lecturer_of_def assign_request_def
  m2_preprocess_requests_def group_requests_def group_step_def
  priority_key_def priority_map_def empty_schedule_def
  upto.simps upt_rec

lemmas progress_eval =
  ss_progress_def m2_progress_def run_attempts_def ss_attempts_def ss_course_attempts_def
  m2_attempts_def m2_tier_attempts_def course_or_default_def

lemma m2_rules_tiers: "priority_order (m2_rules blocks) = tiers"
  by (simp add: m2_rules_def tiers_def)

lemma upto_1_2: "[1..2] = [1, 2::int]"
  by (simp add: upto.simps)

lemma priority_map_tiers:
  "priority_map tiers = [''Required'' \<mapsto> 0, ''Requested'' \<mapsto> 1, ''Recommended'' \<mapsto> 2]"
  by (simp add: priority_map_def tiers_def upt_rec fun_eq_iff)

lemma priority_key_has_type:
  assumes "priority_order rl = tiers"
  shows "has_type ''Required'' r \<Longrightarrow> priority_key rl r = 0"
    and "has_type ''Requested'' r \<Longrightarrow> priority_key rl r = 1"
    and "has_type ''Recommended'' r \<Longrightarrow> priority_key rl r = 2"
  by (auto simp: has_type_def priority_key_def assms priority_map_tiers split: jfield.splits)

section \<open>C1: the partition of the requests\<close>

lemma mset_ss_course_attempts:
  "image_mset snd (mset (ss_course_attempts rl pre e)) =
   (if course_details pre (fst e) = None then {#} else mset (snd e))"
  by (simp add: ss_course_attempts_def multiset.map_comp comp_def split: option.splits)

lemma mset_ss_attempts_aux:
  "mset (map snd (concat (map (ss_course_attempts rl pre) es))) + mset (unknown_requests pre es) =
   mset (concat (map snd es))"
proof (induction es)
  case Nil
  then show ?case by (simp add: unknown_requests_def)
next
  case (Cons e es)
  then show ?case
    by (cases "course_details pre (fst e)") (simp_all add: unknown_requests_def mset_ss_course_attempts)
qed

lemma ss_partition:
  "mset (resolved (ss_generate_schedule rl pre)) + mset (unresolved (ss_generate_schedule rl pre)) =
   mset (concat (map snd (course_requests pre)))"
proof -
  have "mset (resolved (ss_generate_schedule rl pre)) + mset (unresolved (ss_generate_schedule rl pre)) =
        mset (unknown_requests pre (course_requests pre)) + mset (map snd (ss_attempts rl pre))"
    by (simp add: ss_generate_schedule_flat run_attempts_mset ss_first_pass_fold_unresolved empty_schedule_def)
  then show ?thesis
    using mset_ss_attempts_aux[of rl pre "course_requests pre"]
    by (simp add: ss_attempts_def add.commute)
qed

lemma m2_classified:
  "mset (resolved (m2_generate_schedule True rl pre)) + mset (unresolved (m2_generate_schedule True rl pre)) =
   mset (map snd (m2_attempts rl pre))"
  by (simp add: m2_generate_schedule_flat run_attempts_mset empty_schedule_def)

lemma set_m2_tier_attempts:
  "snd ` set (m2_tier_attempts pre t) \<subseteq> set (concat (map snd (course_requests pre)))"
  by (auto simp: m2_tier_attempts_def)

lemma set_m2_attempts:
  "snd ` set (m2_attempts rl pre) \<subseteq> set (concat (map snd (course_requests pre)))"
proof
  fix r assume "r \<in> snd ` set (m2_attempts rl pre)"
  then obtain t where "r \<in> snd ` set (m2_tier_attempts pre t)"
    by (auto simp: m2_attempts_def)
  then show "r \<in> set (concat (map snd (course_requests pre)))"
    using set_m2_tier_attempts[of pre t] by blast
qed

lemma m2_outputs_subset:
  "set (resolved (m2_generate_schedule d rl pre)) \<union> set (unresolved (m2_generate_schedule d rl pre))
   \<subseteq> set (concat (map snd (course_requests pre)))"
proof (cases d)
  case True
  have "set (resolved (m2_generate_schedule True rl pre)) \<union> set (unresolved (m2_generate_schedule True rl pre)) =
        set_mset (mset (resolved (m2_generate_schedule True rl pre)) + mset (unresolved (m2_generate_schedule True rl pre)))"
    by simp
  also have "\<dots> = snd ` set (m2_attempts rl pre)"
    by (simp only: m2_classified) simp
  finally show ?thesis using set_m2_attempts True by auto
next
  case False
  then show ?thesis by (simp add: m2_generate_schedule_def empty_schedule_def)
qed

text \<open>
  Claim C1, the partition of the requests. simple\_scheduler.py classifies every grouped
  request exactly once (lemma \<open>ss_partition\<close>). milestone2.py attempts only the requests
  whose \<^verbatim>\<open>Type\<close> equals one of the tiers: a request without the key \<^verbatim>\<open>Type\<close>, which
  its own \<^verbatim>\<open>preprocess_data\<close> sorts as Recommended, is grouped and then appears in
  neither list, although the course has a free seat; simple\_scheduler.py resolves it.
\<close>

theorem m2_loses_untyped_request:
  "m2_preprocess_requests (m2_rules [''1A'', ''1B'']) [untyped_request] = [(''BIB9'', [untyped_request])] \<and>
   resolved (m2_generate_schedule True (m2_rules [''1A'', ''1B''])
     (bib9_pre Map.empty (m2_preprocess_requests (m2_rules [''1A'', ''1B'']) [untyped_request]))) = [] \<and>
   unresolved (m2_generate_schedule True (m2_rules [''1A'', ''1B''])
     (bib9_pre Map.empty (m2_preprocess_requests (m2_rules [''1A'', ''1B'']) [untyped_request]))) = [] \<and>
   resolved (ss_generate_schedule ss_extract_rules_and_constraints
     (bib9_pre Map.empty (ss_preprocess_requests [untyped_request]))) = [untyped_request]"
  by (simp add: m2_eval ss_eval m2_rules_def untyped_request_def bib9_pre_def bib9_course_def)

section \<open>C2: the order of the attempts\<close>

lemma m2_tier_attempts_type:
  "a \<in> set (m2_tier_attempts pre t) \<Longrightarrow> has_type t (snd a)"
  by (auto simp: m2_tier_attempts_def)

lemma m2_attempts_tiers:
  assumes "priority_order rl = tiers"
  shows "m2_attempts rl pre =
         m2_tier_attempts pre ''Required'' @ m2_tier_attempts pre ''Requested'' @
         m2_tier_attempts pre ''Recommended''"
  by (simp add: m2_attempts_def assms tiers_def)

lemma m2_attempts_typed:
  assumes "priority_order rl = tiers" "a \<in> set (m2_attempts rl pre)"
  shows "has_type ''Required'' (snd a) \<or> has_type ''Requested'' (snd a) \<or> has_type ''Recommended'' (snd a)"
  using assms(2) m2_tier_attempts_type[of a pre]
  by (auto simp: m2_attempts_tiers[OF assms(1)])

lemma typed_priority_key:
  assumes "priority_order rl = tiers"
    and "has_type ''Required'' r \<or> has_type ''Requested'' r \<or> has_type ''Recommended'' r"
  shows "has_type ''Required'' r \<longleftrightarrow> priority_key rl r = 0"
    and "has_type ''Recommended'' r \<longleftrightarrow> priority_key rl r = 2"
    and "priority_key rl r \<le> 2"
proof -
  note pk = priority_key_has_type[OF assms(1), of r]
  show "has_type ''Required'' r \<longleftrightarrow> priority_key rl r = 0"
    using assms(2) pk by fastforce
  show "has_type ''Recommended'' r \<longleftrightarrow> priority_key rl r = 2"
    using assms(2) pk by fastforce
  show "priority_key rl r \<le> 2"
    using assms(2) pk by fastforce
qed

lemma sorted_map_const:
  "(\<And>x. x \<in> set xs \<Longrightarrow> f x = (k::nat)) \<Longrightarrow> sorted (map f xs)"
  by (induction xs) auto

lemma m2_attempts_sorted:
  assumes "priority_order rl = tiers"
  shows "sorted (map (\<lambda>a. priority_key rl (snd a)) (m2_attempts rl pre))"
proof -
  note pk = priority_key_has_type[OF assms]
  have k0: "a \<in> set (m2_tier_attempts pre ''Required'') \<Longrightarrow> priority_key rl (snd a) = 0" for a
    using pk(1) m2_tier_attempts_type by blast
  have k1: "a \<in> set (m2_tier_attempts pre ''Requested'') \<Longrightarrow> priority_key rl (snd a) = 1" for a
    using pk(2) m2_tier_attempts_type by blast
  have k2: "a \<in> set (m2_tier_attempts pre ''Recommended'') \<Longrightarrow> priority_key rl (snd a) = 2" for a
    using pk(3) m2_tier_attempts_type by blast
  show ?thesis
    unfolding m2_attempts_tiers[OF assms] map_append sorted_append
    using sorted_map_const[of _ "\<lambda>a. priority_key rl (snd a)", OF k0]
      sorted_map_const[of _ "\<lambda>a. priority_key rl (snd a)", OF k1]
      sorted_map_const[of _ "\<lambda>a. priority_key rl (snd a)", OF k2]
    by (auto simp: k0 k1 k2)
qed

lemma ss_course_attempts_sorted:
  "sorted (map (\<lambda>a. priority_key rl (snd a)) (ss_course_attempts rl pre e))"
  by (cases "course_details pre (fst e)") (simp_all add: ss_course_attempts_def comp_def)

text \<open>
  Claim C2 as amended, the order of the attempts. milestone2.py has the tiers in the
  outer loop: its second pass runs the requests in an order in which everything before
  a Required request is Required and everything after a Recommended request is
  Recommended, and every attempted request has one of the three tiers.
  simple\_scheduler.py has the courses in the outer loop: its second pass runs the
  courses one after the other, and within one course the requests of the course by
  ascending priority.
\<close>

theorem attempt_order:
  assumes "priority_order rl = tiers"
  shows "m2_generate_schedule True rl pre =
           run_attempts rl pre (snd (m2_first_pass_all rl pre empty_schedule)) (m2_attempts rl pre) \<and>
         (\<forall>i j. i < j \<and> j < length (m2_attempts rl pre) \<longrightarrow>
            (has_type ''Required'' (snd (m2_attempts rl pre ! j)) \<longrightarrow>
               has_type ''Required'' (snd (m2_attempts rl pre ! i))) \<and>
            (has_type ''Recommended'' (snd (m2_attempts rl pre ! i)) \<longrightarrow>
               has_type ''Recommended'' (snd (m2_attempts rl pre ! j)))) \<and>
         (\<forall>a\<in>set (m2_attempts rl pre).
            has_type ''Required'' (snd a) \<or> has_type ''Requested'' (snd a) \<or>
            has_type ''Recommended'' (snd a)) \<and>
         ss_generate_schedule rl pre =
           run_attempts rl pre (foldl (ss_first_pass rl pre) empty_schedule (course_requests pre))
             (concat (map (ss_course_attempts rl pre) (course_requests pre))) \<and>
         (\<forall>e\<in>set (course_requests pre).
            sorted (map (\<lambda>a. priority_key rl (snd a)) (ss_course_attempts rl pre e)) \<and>
            (course_details pre (fst e) \<noteq> None \<longrightarrow>
               mset (map snd (ss_course_attempts rl pre e)) = mset (snd e)))"
proof (intro conjI allI impI ballI)
  show "m2_generate_schedule True rl pre =
           run_attempts rl pre (snd (m2_first_pass_all rl pre empty_schedule)) (m2_attempts rl pre)"
    by (rule m2_generate_schedule_flat)
  show "ss_generate_schedule rl pre =
           run_attempts rl pre (foldl (ss_first_pass rl pre) empty_schedule (course_requests pre))
             (concat (map (ss_course_attempts rl pre) (course_requests pre)))"
    by (simp add: ss_generate_schedule_flat ss_attempts_def)
next
  fix a assume "a \<in> set (m2_attempts rl pre)"
  then show "has_type ''Required'' (snd a) \<or> has_type ''Requested'' (snd a) \<or>
            has_type ''Recommended'' (snd a)"
    by (rule m2_attempts_typed[OF assms])
next
  fix e
  show "sorted (map (\<lambda>a. priority_key rl (snd a)) (ss_course_attempts rl pre e))"
    by (rule ss_course_attempts_sorted)
  assume "course_details pre (fst e) \<noteq> None"
  then have "image_mset snd (mset (ss_course_attempts rl pre e)) = mset (snd e)"
    by (simp only: mset_ss_course_attempts if_False)
  then show "mset (map snd (ss_course_attempts rl pre e)) = mset (snd e)"
    by simp
next
  fix i j
  assume ij: "i < j \<and> j < length (m2_attempts rl pre)"
  let ?A = "m2_attempts rl pre"
  have le: "priority_key rl (snd (?A ! i)) \<le> priority_key rl (snd (?A ! j))"
    using m2_attempts_sorted[OF assms, of pre] ij
    by (simp add: sorted_iff_nth_mono)
  have ti: "has_type ''Required'' (snd (?A ! i)) \<or> has_type ''Requested'' (snd (?A ! i)) \<or>
            has_type ''Recommended'' (snd (?A ! i))"
    using ij by (intro m2_attempts_typed[OF assms, of _ pre]) simp
  have tj: "has_type ''Required'' (snd (?A ! j)) \<or> has_type ''Requested'' (snd (?A ! j)) \<or>
            has_type ''Recommended'' (snd (?A ! j))"
    using ij by (intro m2_attempts_typed[OF assms, of _ pre]) simp
  note ki = typed_priority_key[OF assms ti]
  note kj = typed_priority_key[OF assms tj]
  {
    assume "has_type ''Required'' (snd (?A ! j))"
    then have "priority_key rl (snd (?A ! j)) = 0" by (simp only: kj(1))
    then have "priority_key rl (snd (?A ! i)) = 0" using le by simp
    then show "has_type ''Required'' (snd (?A ! i))" by (simp only: ki(1))
  }
  {
    assume "has_type ''Recommended'' (snd (?A ! i))"
    then have "priority_key rl (snd (?A ! i)) = 2" by (simp only: ki(2))
    then have "priority_key rl (snd (?A ! j)) = 2" using le kj(3) by simp
    then show "has_type ''Recommended'' (snd (?A ! j))" by (simp only: kj(2))
  }
qed

lemma swap_ss_attempts:
  "ss_attempts ss_extract_rules_and_constraints (swap_pre (ss_preprocess_requests swap_requests)) =
     [(''ART1'', art1_request), (''BIB9'', bib9_s1_request)]"
  by (simp add: ss_attempts_def ss_course_attempts_def ss_eval swap_pre_def swap_requests_def
      art1_request_def bib9_s1_request_def)

lemma swap_m2_attempts:
  "m2_attempts (m2_rules [''1A''])
     (swap_pre (m2_preprocess_requests (m2_rules [''1A'']) swap_requests)) =
     [(''BIB9'', bib9_s1_request), (''ART1'', art1_request)]"
  by (simp add: m2_attempts_def m2_tier_attempts_def m2_eval m2_rules_def swap_pre_def swap_requests_def
      art1_request_def bib9_s1_request_def)

text \<open>
  Claim C2 fails on simple\_scheduler.py: with a Requested request for \<^verbatim>\<open>ART1\<close> ahead of a
  Required request for \<^verbatim>\<open>BIB9\<close> of the same student, both courses on block \<^verbatim>\<open>1A\<close> only,
  the Requested request is attempted first and resolved, and the Required one is left
  unresolved. milestone2.py attempts and resolves the Required one first.
\<close>

theorem ss_attempts_course_first:
  "ss_attempts ss_extract_rules_and_constraints (swap_pre (ss_preprocess_requests swap_requests)) =
     [(''ART1'', art1_request), (''BIB9'', bib9_s1_request)] \<and>
   has_type ''Requested'' art1_request \<and> has_type ''Required'' bib9_s1_request \<and>
   ss_generate_schedule ss_extract_rules_and_constraints (swap_pre (ss_preprocess_requests swap_requests)) =
     run_attempts ss_extract_rules_and_constraints (swap_pre (ss_preprocess_requests swap_requests))
       (foldl (ss_first_pass ss_extract_rules_and_constraints (swap_pre (ss_preprocess_requests swap_requests)))
          empty_schedule (ss_preprocess_requests swap_requests))
       [(''ART1'', art1_request), (''BIB9'', bib9_s1_request)] \<and>
   resolved (ss_generate_schedule ss_extract_rules_and_constraints
      (swap_pre (ss_preprocess_requests swap_requests))) = [art1_request] \<and>
   unresolved (ss_generate_schedule ss_extract_rules_and_constraints
      (swap_pre (ss_preprocess_requests swap_requests))) = [bib9_s1_request] \<and>
   resolved (m2_generate_schedule True (m2_rules [''1A''])
      (swap_pre (m2_preprocess_requests (m2_rules [''1A'']) swap_requests))) = [bib9_s1_request] \<and>
   unresolved (m2_generate_schedule True (m2_rules [''1A''])
      (swap_pre (m2_preprocess_requests (m2_rules [''1A'']) swap_requests))) = [art1_request]"
proof (intro conjI)
  let ?pre = "swap_pre (ss_preprocess_requests swap_requests)"
  have cr: "course_requests ?pre = ss_preprocess_requests swap_requests"
    by (simp add: swap_pre_def)
  show "ss_attempts ss_extract_rules_and_constraints ?pre =
     [(''ART1'', art1_request), (''BIB9'', bib9_s1_request)]"
    by (rule swap_ss_attempts)
  show "has_type ''Requested'' art1_request" "has_type ''Required'' bib9_s1_request"
    by (simp_all add: has_type_def art1_request_def bib9_s1_request_def)
  show "ss_generate_schedule ss_extract_rules_and_constraints ?pre =
     run_attempts ss_extract_rules_and_constraints ?pre
       (foldl (ss_first_pass ss_extract_rules_and_constraints ?pre) empty_schedule (ss_preprocess_requests swap_requests))
       [(''ART1'', art1_request), (''BIB9'', bib9_s1_request)]"
    using ss_generate_schedule_flat[of ss_extract_rules_and_constraints ?pre]
    by (simp only: swap_ss_attempts cr)
  show "resolved (ss_generate_schedule ss_extract_rules_and_constraints ?pre) = [art1_request]"
    "unresolved (ss_generate_schedule ss_extract_rules_and_constraints ?pre) = [bib9_s1_request]"
    by (simp_all add: ss_eval swap_pre_def swap_requests_def one_block_course_def
        art1_request_def bib9_s1_request_def)
  show "resolved (m2_generate_schedule True (m2_rules [''1A''])
      (swap_pre (m2_preprocess_requests (m2_rules [''1A'']) swap_requests))) = [bib9_s1_request]"
    "unresolved (m2_generate_schedule True (m2_rules [''1A''])
      (swap_pre (m2_preprocess_requests (m2_rules [''1A'']) swap_requests))) = [art1_request]"
    by (simp_all add: m2_eval m2_rules_def swap_pre_def swap_requests_def one_block_course_def
        art1_request_def bib9_s1_request_def)
qed

text \<open>The hypothesis of the amended C2 holds for the rules of milestone2.py.\<close>

theorem attempt_order_witness:
  "priority_order (m2_rules [''1A'']) = tiers \<and>
   m2_attempts (m2_rules [''1A''])
     (swap_pre (m2_preprocess_requests (m2_rules [''1A'']) swap_requests)) =
     [(''BIB9'', bib9_s1_request), (''ART1'', art1_request)] \<and>
   m2_generate_schedule True (m2_rules [''1A''])
      (swap_pre (m2_preprocess_requests (m2_rules [''1A'']) swap_requests)) =
     run_attempts (m2_rules [''1A'']) (swap_pre (m2_preprocess_requests (m2_rules [''1A'']) swap_requests))
       (snd (m2_first_pass_all (m2_rules [''1A''])
          (swap_pre (m2_preprocess_requests (m2_rules [''1A'']) swap_requests)) empty_schedule))
       [(''BIB9'', bib9_s1_request), (''ART1'', art1_request)]"
proof -
  let ?pre = "swap_pre (m2_preprocess_requests (m2_rules [''1A'']) swap_requests)"
  have h: "priority_order (m2_rules [''1A'']) = tiers" by (rule m2_rules_tiers)
  have "m2_generate_schedule True (m2_rules [''1A'']) ?pre =
      run_attempts (m2_rules [''1A'']) ?pre
        (snd (m2_first_pass_all (m2_rules [''1A'']) ?pre empty_schedule))
        (m2_attempts (m2_rules [''1A'']) ?pre)"
    using attempt_order[OF h, where pre = ?pre] by (rule conjunct1)
  then show ?thesis using h by (simp only: swap_m2_attempts)
qed

section \<open>C3: courses without details\<close>

lemma known_sectionsI:
  assumes "\<And>k. section_blocks st k \<noteq> None \<Longrightarrow> course_details pre (fst k) \<noteq> None"
    and "\<And>l b k. teacher_schedule st l b = Some k \<Longrightarrow> course_details pre (fst k) \<noteq> None"
    and "\<And>s b k. student_schedule st s b = Some k \<Longrightarrow> course_details pre (fst k) \<noteq> None"
  shows "known_sections pre st"
  unfolding known_sections_def using assms by blast

lemma known_sectionsD:
  assumes "known_sections pre st"
  shows "section_blocks st k \<noteq> None \<Longrightarrow> course_details pre (fst k) \<noteq> None"
    and "teacher_schedule st l b = Some k \<Longrightarrow> course_details pre (fst k) \<noteq> None"
    and "student_schedule st s b = Some k \<Longrightarrow> course_details pre (fst k) \<noteq> None"
  using assms unfolding known_sections_def by blast+

lemma bind_block_known:
  assumes "known_sections pre (snd acc)" "course_details pre code \<noteq> None"
  shows "known_sections pre (snd (bind_block l (code, n) best acc))"
proof (cases "\<exists>b. best = Some b \<and> b \<noteq> []")
  case False
  then have "bind_block l (code, n) best acc = acc"
    by (auto simp: bind_block_def split: option.splits)
  then show ?thesis using assms by simp
next
  case True
  then obtain b where b: "best = Some b" "b \<noteq> []" by blast
  note D = known_sectionsD[OF assms(1)]
  show ?thesis
  proof (rule known_sectionsI)
    fix k assume "section_blocks (snd (bind_block l (code, n) best acc)) k \<noteq> None"
    then show "course_details pre (fst k) \<noteq> None"
      using b assms(2) D(1)[of k] by (cases "k = (code, n)") (auto simp: bind_block_def)
  next
    fix l' b' k assume "teacher_schedule (snd (bind_block l (code, n) best acc)) l' b' = Some k"
    then show "course_details pre (fst k) \<noteq> None"
      using b assms(2) D(2)[of l' b' k] by (auto simp: bind_block_def split: if_splits)
  next
    fix s b' k assume "student_schedule (snd (bind_block l (code, n) best acc)) s b' = Some k"
    then show "course_details pre (fst k) \<noteq> None"
      using D(3)[of s b' k] by simp
  qed
qed

lemma ss_sections_known:
  assumes "known_sections pre (snd acc)" "course_details pre code \<noteq> None"
  shows "known_sections pre (snd (foldl (ss_assign_section rl pre code c) acc ns))"
  using assms(1)
  by (induction ns arbitrary: acc) (simp_all add: ss_assign_section_def bind_block_known assms(2))

lemma ss_first_pass_known:
  assumes "known_sections pre st"
  shows "known_sections pre (ss_first_pass rl pre st e)"
proof (cases "course_details pre (fst e)")
  case None
  then show ?thesis using assms by (simp add: ss_first_pass_def known_sections_def)
next
  case (Some c)
  then show ?thesis using ss_sections_known[of pre "({}, st)" "fst e" rl c] assms
    by (simp add: ss_first_pass_def)
qed

lemma ss_first_pass_fold_known:
  "known_sections pre st \<Longrightarrow> known_sections pre (foldl (ss_first_pass rl pre) st es)"
  by (induction es arbitrary: st) (simp_all add: ss_first_pass_known)

lemma assign_request_known:
  assumes "known_sections pre st" "course_details pre code \<noteq> None"
  shows "known_sections pre (assign_request code c st req)"
proof (cases rule: assign_request_cases[of code c st req])
  case unres
  then show ?thesis using assms by (simp add: known_sections_def)
next
  case (res student n b)
  note D = known_sectionsD[OF assms(1)]
  show ?thesis
  proof (rule known_sectionsI)
    fix k assume "section_blocks (assign_request code c st req) k \<noteq> None"
    then show "course_details pre (fst k) \<noteq> None" using D(1)[of k] by simp
  next
    fix l b' k assume "teacher_schedule (assign_request code c st req) l b' = Some k"
    then show "course_details pre (fst k) \<noteq> None" using D(2)[of l b' k] by simp
  next
    fix s b' k assume "student_schedule (assign_request code c st req) s b' = Some k"
    then show "course_details pre (fst k) \<noteq> None"
      using D(3)[of s b' k] assms(2) res(7) by (auto split: if_splits)
  qed
qed

lemma run_attempts_known:
  assumes "known_sections pre st" "\<And>a. a \<in> set as \<Longrightarrow> course_details pre (fst a) \<noteq> None"
  shows "known_sections pre (run_attempts rl pre st as)"
  using assms(2)
proof (induction as rule: rev_induct)
  case Nil
  then show ?case using assms(1) by simp
next
  case (snoc a as)
  then show ?case by (simp add: run_attempts_snoc assign_request_known)
qed

lemma ss_generate_schedule_known: "known_sections pre (ss_generate_schedule rl pre)"
  unfolding ss_generate_schedule_flat
  by (intro run_attempts_known ss_first_pass_fold_known ss_attempts_known)
     (simp add: known_sections_def empty_schedule_def)

lemma group_add_codes:
  "grouped_by_code g \<Longrightarrow> truthy (Course_code r) = Some k \<Longrightarrow> grouped_by_code (group_add k r g)"
  by (induction k r g rule: group_add.induct) (auto simp: grouped_by_code_def)

lemma group_step_codes: "grouped_by_code g \<Longrightarrow> grouped_by_code (group_step g r)"
  by (cases "truthy (Course_code r)") (simp_all add: group_step_def group_add_codes)

lemma group_requests_codes_aux: "grouped_by_code g \<Longrightarrow> grouped_by_code (foldl group_step g reqs)"
  by (induction reqs arbitrary: g) (simp_all add: group_step_codes)

lemma group_requests_codes:
  "(k, rs) \<in> set (group_requests reqs) \<Longrightarrow> r \<in> set rs \<Longrightarrow> truthy (Course_code r) = Some k"
  using group_requests_codes_aux[of "[]" reqs]
  by (fastforce simp: group_requests_def grouped_by_code_def)

lemma ss_unknown_roster:
  assumes "course_details pre code = None"
  shows "section_assignments (ss_generate_schedule rl pre) (code, n) = []"
proof -
  have "fst (code, n) \<notin> fst ` set (ss_attempts rl pre)"
  proof
    assume "fst (code, n) \<in> fst ` set (ss_attempts rl pre)"
    then obtain a where "a \<in> set (ss_attempts rl pre)" "fst a = code" by force
    then show False using assms ss_attempts_known[of a rl pre] by simp
  qed
  then have "section_assignments (ss_generate_schedule rl pre) (code, n) =
      section_assignments (foldl (ss_first_pass rl pre) empty_schedule (course_requests pre)) (code, n)"
    unfolding ss_generate_schedule_flat by (rule run_attempts_other_course)
  then show ?thesis by (simp add: empty_schedule_def)
qed

text \<open>
  Claim C3 as amended, for simple\_scheduler.py. For a course code without details no
  section is bound, no roster gets a student, no student's and no lecturer's schedule
  gets a section of the course; every request of its group is unresolved already after
  the first pass and stays so; and a request carrying that course code is never resolved.
\<close>

theorem unknown_course_unresolved:
  assumes "course_details pre code = None"
  shows "section_blocks (ss_generate_schedule rl pre) (code, n) = None \<and>
         section_assignments (ss_generate_schedule rl pre) (code, n) = [] \<and>
         student_schedule (ss_generate_schedule rl pre) s b \<noteq> Some (code, n) \<and>
         teacher_schedule (ss_generate_schedule rl pre) l b \<noteq> Some (code, n) \<and>
         ((code, rs) \<in> set (course_requests pre) \<and> r \<in> set rs \<longrightarrow>
            r \<in> set (unresolved (foldl (ss_first_pass rl pre) empty_schedule (course_requests pre))) \<and>
            r \<in> set (unresolved (ss_generate_schedule rl pre))) \<and>
         (course_requests pre = ss_preprocess_requests student_requests \<and>
          truthy (Course_code r) = Some code \<longrightarrow>
            r \<notin> set (resolved (ss_generate_schedule rl pre)))"
proof (intro conjI impI)
  note K = known_sectionsD[OF ss_generate_schedule_known[of pre rl]]
  show "section_blocks (ss_generate_schedule rl pre) (code, n) = None"
    using K(1)[of "(code, n)"] assms by (cases "section_blocks (ss_generate_schedule rl pre) (code, n)") auto
  show "section_assignments (ss_generate_schedule rl pre) (code, n) = []"
    by (rule ss_unknown_roster[OF assms])
  show "student_schedule (ss_generate_schedule rl pre) s b \<noteq> Some (code, n)"
    using K(3)[of s b "(code, n)"] assms by auto
  show "teacher_schedule (ss_generate_schedule rl pre) l b \<noteq> Some (code, n)"
    using K(2)[of l b "(code, n)"] assms by auto
next
  assume a: "(code, rs) \<in> set (course_requests pre) \<and> r \<in> set rs"
  then have "r \<in> set (unknown_requests pre (course_requests pre))"
    using assms by (force simp: unknown_requests_def)
  then show first: "r \<in> set (unresolved (foldl (ss_first_pass rl pre) empty_schedule (course_requests pre)))"
    by (simp add: ss_first_pass_fold_unresolved)
  show "r \<in> set (unresolved (ss_generate_schedule rl pre))"
    unfolding ss_generate_schedule_flat using first run_attempts_unresolved_grows by blast
next
  assume a: "course_requests pre = ss_preprocess_requests student_requests \<and>
          truthy (Course_code r) = Some code"
  show "r \<notin> set (resolved (ss_generate_schedule rl pre))"
  proof
    assume "r \<in> set (resolved (ss_generate_schedule rl pre))"
    moreover have "resolved (foldl (ss_first_pass rl pre) empty_schedule (course_requests pre)) = []"
      by (simp add: empty_schedule_def)
    ultimately have "r \<in> snd ` set (ss_attempts rl pre)"
      using run_attempts_resolved_subset[of rl pre
          "foldl (ss_first_pass rl pre) empty_schedule (course_requests pre)" "ss_attempts rl pre"]
      unfolding ss_generate_schedule_flat by auto
    then obtain a' where a': "a' \<in> set (ss_attempts rl pre)" "snd a' = r" by auto
    then obtain rs' where rs': "(fst a', rs') \<in> set (course_requests pre)" "r \<in> set rs'"
      using ss_attempts_origin[of a' rl pre] by auto
    then have "truthy (Course_code r) = Some (fst a')"
      using a group_requests_codes[of "fst a'" rs' student_requests r]
      by (simp add: ss_preprocess_requests_def)
    then have "fst a' = code" using a by simp
    then show False using ss_attempts_known[OF a'(1)] assms by simp
  qed
qed

text \<open>The hypotheses of the amended C3 hold for a request for a course without details.\<close>

theorem unknown_course_unresolved_witness:
  "course_details (stray_pre (ss_preprocess_requests [stray_request])) ''XYZ1'' = None \<and>
   (''XYZ1'', [stray_request]) \<in> set (course_requests (stray_pre (ss_preprocess_requests [stray_request]))) \<and>
   truthy (Course_code stray_request) = Some ''XYZ1'' \<and>
   section_blocks (ss_generate_schedule ss_extract_rules_and_constraints
      (stray_pre (ss_preprocess_requests [stray_request]))) (''XYZ1'', 1) = None \<and>
   section_assignments (ss_generate_schedule ss_extract_rules_and_constraints
      (stray_pre (ss_preprocess_requests [stray_request]))) (''XYZ1'', 1) = [] \<and>
   stray_request \<in> set (unresolved (ss_generate_schedule ss_extract_rules_and_constraints
      (stray_pre (ss_preprocess_requests [stray_request])))) \<and>
   stray_request \<notin> set (resolved (ss_generate_schedule ss_extract_rules_and_constraints
      (stray_pre (ss_preprocess_requests [stray_request]))))"
proof -
  let ?pre = "stray_pre (ss_preprocess_requests [stray_request])"
  have h: "course_details ?pre ''XYZ1'' = None" by (simp add: stray_pre_def)
  have g: "(''XYZ1'', [stray_request]) \<in> set (course_requests ?pre)"
    by (simp add: stray_pre_def ss_preprocess_requests_def group_requests_def group_step_def stray_request_def)
  have c: "course_requests ?pre = ss_preprocess_requests [stray_request]" by (simp add: stray_pre_def)
  have t: "truthy (Course_code stray_request) = Some ''XYZ1''" by (simp add: stray_request_def)
  show ?thesis
    using h g t c
      unknown_course_unresolved[OF h, where rl = ss_extract_rules_and_constraints and n = 1
        and s = "''S1''" and b = "''1A''" and l = "''unknown_XYZ1''"
        and rs = "[stray_request]" and r = stray_request and student_requests = "[stray_request]"]
    by simp
qed

text \<open>
  Claim C3 fails on milestone2.py: a request for a course without details is scheduled
  with the default parameters, one section of 25 seats on any block of the global list.
\<close>

theorem m2_schedules_unknown_course:
  "course_details (stray_pre (m2_preprocess_requests (m2_rules [''1A'']) [stray_request])) ''XYZ1'' = None \<and>
   section_blocks (m2_generate_schedule True (m2_rules [''1A''])
      (stray_pre (m2_preprocess_requests (m2_rules [''1A'']) [stray_request]))) (''XYZ1'', 1) = Some ''1A'' \<and>
   section_assignments (m2_generate_schedule True (m2_rules [''1A''])
      (stray_pre (m2_preprocess_requests (m2_rules [''1A'']) [stray_request]))) (''XYZ1'', 1) = [''S1''] \<and>
   student_schedule (m2_generate_schedule True (m2_rules [''1A''])
      (stray_pre (m2_preprocess_requests (m2_rules [''1A'']) [stray_request]))) ''S1'' ''1A'' = Some (''XYZ1'', 1) \<and>
   resolved (m2_generate_schedule True (m2_rules [''1A''])
      (stray_pre (m2_preprocess_requests (m2_rules [''1A'']) [stray_request]))) = [stray_request] \<and>
   unresolved (m2_generate_schedule True (m2_rules [''1A''])
      (stray_pre (m2_preprocess_requests (m2_rules [''1A'']) [stray_request]))) = []"
  by (simp add: m2_eval m2_rules_def stray_request_def stray_pre_def)

section \<open>C4: a section is bound once\<close>

text \<open>
  Claim C4, a section is bound once. milestone2.py runs its block assignment once per
  tier: with a Required and a Requested request for one course of one section and the
  eligible blocks \<^verbatim>\<open>1A\<close>, \<^verbatim>\<open>1B\<close>, the pass of the tier Required binds the section to
  \<^verbatim>\<open>1A\<close>, the pass of the tier Requested finds \<^verbatim>\<open>1A\<close> taken by the section's own
  lecturer and binds the same section to \<^verbatim>\<open>1B\<close>, and the lecturer keeps both slots.
\<close>

theorem m2_rebinds_section:
  "section_blocks (snd (foldl (m2_first_pass (m2_rules [''1A'', ''1B''])
        (two_block_pre (m2_preprocess_requests (m2_rules [''1A'', ''1B'']) two_tier_requests)) ''Required'')
      (False, empty_schedule)
      (m2_preprocess_requests (m2_rules [''1A'', ''1B'']) two_tier_requests))) (''BIB9'', 1) = Some ''1A'' \<and>
   section_blocks (snd (m2_first_pass_all (m2_rules [''1A'', ''1B''])
        (two_block_pre (m2_preprocess_requests (m2_rules [''1A'', ''1B'']) two_tier_requests)) empty_schedule))
      (''BIB9'', 1) = Some ''1B'' \<and>
   section_blocks (m2_generate_schedule True (m2_rules [''1A'', ''1B''])
        (two_block_pre (m2_preprocess_requests (m2_rules [''1A'', ''1B'']) two_tier_requests)))
      (''BIB9'', 1) = Some ''1B'' \<and>
   teacher_schedule (m2_generate_schedule True (m2_rules [''1A'', ''1B''])
        (two_block_pre (m2_preprocess_requests (m2_rules [''1A'', ''1B'']) two_tier_requests)))
      ''unknown_BIB9'' ''1A'' = Some (''BIB9'', 1) \<and>
   teacher_schedule (m2_generate_schedule True (m2_rules [''1A'', ''1B''])
        (two_block_pre (m2_preprocess_requests (m2_rules [''1A'', ''1B'']) two_tier_requests)))
      ''unknown_BIB9'' ''1B'' = Some (''BIB9'', 1)"
  by (simp add: m2_eval m2_rules_def two_tier_requests_def two_block_pre_def)

section \<open>C5: first fit\<close>

lemma ss_find_block_find:
  "ss_find_block avail unavail assigned busy bs =
   find (\<lambda>b. b \<in> set avail \<and> b \<notin> set unavail \<and> b \<notin> assigned \<and> busy b = None) bs"
  by (induction bs) auto


lemma find_member_cong:
  "(\<And>x. x \<in> set xs \<Longrightarrow> P x = Q x) \<Longrightarrow> find P xs = find Q xs"
  by (induction xs) auto

lemma find_first_fit: "find ok blocks = Some b \<longleftrightarrow> spec_first_fit blocks ok b"
  unfolding spec_first_fit_def find_Some_iff by auto

lemma bind_block_other:
  "k \<noteq> key \<Longrightarrow> section_blocks (snd (bind_block l key best acc)) k = section_blocks (snd acc) k"
  by (simp add: bind_block_def split: option.splits)

lemma bind_block_key:
  "section_blocks (snd (bind_block l key best acc)) key =
   (case best of None \<Rightarrow> section_blocks (snd acc) key
    | Some b \<Rightarrow> if b = [] then section_blocks (snd acc) key else Some b)"
  by (simp add: bind_block_def split: option.splits)

lemma bind_block_assigned:
  "fst (bind_block l key best acc) =
   (case best of None \<Rightarrow> fst acc | Some b \<Rightarrow> if b = [] then fst acc else insert b (fst acc))"
  by (simp add: bind_block_def split: option.splits)

lemma ss_assign_section_other:
  "k \<noteq> (code, m) \<Longrightarrow>
   section_blocks (snd (ss_assign_section rl pre code c acc m)) k = section_blocks (snd acc) k"
  by (simp add: ss_assign_section_def bind_block_other)

lemma ss_sections_other:
  "\<forall>m\<in>set ns. k \<noteq> (code, m) \<Longrightarrow>
   section_blocks (snd (foldl (ss_assign_section rl pre code c) acc ns)) k = section_blocks (snd acc) k"
  by (induction ns arbitrary: acc) (simp_all add: ss_assign_section_other)

lemma ss_first_pass_other:
  "fst k \<noteq> fst e \<Longrightarrow> section_blocks (ss_first_pass rl pre st e) k = section_blocks st k"
proof (cases "course_details pre (fst e)")
  case None
  then show ?thesis by (simp add: ss_first_pass_def)
next
  case (Some c)
  assume "fst k \<noteq> fst e"
  then have "\<forall>m\<in>set [1..num_sections c]. k \<noteq> (fst e, m)" by auto
  then show ?thesis using Some by (simp add: ss_first_pass_def ss_sections_other)
qed

lemma ss_first_pass_fold_other:
  "fst k \<notin> fst ` set es \<Longrightarrow> section_blocks (foldl (ss_first_pass rl pre) st es) k = section_blocks st k"
  by (induction es arbitrary: st) (simp_all add: ss_first_pass_other)

lemma ss_assign_section_claimed:
  assumes "claimed_ok code acc" "section_blocks (snd acc) (code, n) = None"
  shows "claimed_ok code (ss_assign_section rl pre code c acc n)"
proof -
  let ?l = "lecturer_of pre (code, n)"
  let ?best = "ss_find_block (ss_available rl c) (unavailable_blocks c) (fst acc)
          (teacher_schedule (snd acc) ?l) (all_blocks rl)"
  let ?acc' = "bind_block ?l (code, n) ?best acc"
  have sb: "section_blocks (snd ?acc') (code, m) =
        (if m = n then (case ?best of None \<Rightarrow> None | Some b \<Rightarrow> if b = [] then None else Some b)
         else section_blocks (snd acc) (code, m))" for m
    using assms(2) by (simp add: bind_block_other bind_block_key split: option.splits)
  have "fst ?acc' = {b. \<exists>m. section_blocks (snd ?acc') (code, m) = Some b}"
  proof (cases "\<exists>b. ?best = Some b \<and> b \<noteq> []")
    case True
    then obtain b where b: "?best = Some b" "b \<noteq> []" by blast
    have "{x. \<exists>m. section_blocks (snd ?acc') (code, m) = Some x} =
          insert b {x. \<exists>m. section_blocks (snd acc) (code, m) = Some x}"
    proof (intro set_eqI iffI)
      fix x assume "x \<in> {x. \<exists>m. section_blocks (snd ?acc') (code, m) = Some x}"
      then obtain m where "section_blocks (snd ?acc') (code, m) = Some x" by blast
      then show "x \<in> insert b {x. \<exists>m. section_blocks (snd acc) (code, m) = Some x}"
        unfolding sb using b by (cases "m = n") auto
    next
      fix x assume "x \<in> insert b {x. \<exists>m. section_blocks (snd acc) (code, m) = Some x}"
      then consider "x = b" | m where "section_blocks (snd acc) (code, m) = Some x" by blast
      then show "x \<in> {x. \<exists>m. section_blocks (snd ?acc') (code, m) = Some x}"
      proof cases
        case 1
        then have "section_blocks (snd ?acc') (code, n) = Some x" unfolding sb using b by simp
        then show ?thesis by blast
      next
        case 2
        then have "m \<noteq> n" using assms(2) by auto
        then have "section_blocks (snd ?acc') (code, m) = Some x" unfolding sb using 2 by simp
        then show ?thesis by blast
      qed
    qed
    then show ?thesis using assms(1) b by (simp add: bind_block_assigned claimed_ok_def)
  next
    case False
    then have "?acc' = acc" by (auto simp: bind_block_def split: option.splits)
    then show ?thesis using assms(1) by (simp add: claimed_ok_def)
  qed
  then show ?thesis by (simp add: claimed_ok_def ss_assign_section_def)
qed

lemma ss_sections_claimed:
  assumes "claimed_ok code acc" "\<forall>m\<in>set ns. section_blocks (snd acc) (code, m) = None" "distinct ns"
  shows "claimed_ok code (foldl (ss_assign_section rl pre code c) acc ns)"
  using assms
proof (induction ns arbitrary: acc)
  case Nil
  then show ?case by simp
next
  case (Cons n ns)
  have "claimed_ok code (ss_assign_section rl pre code c acc n)"
    using Cons.prems by (intro ss_assign_section_claimed) simp_all
  moreover have "\<forall>m\<in>set ns. section_blocks (snd (ss_assign_section rl pre code c acc n)) (code, m) = None"
  proof
    fix m assume m: "m \<in> set ns"
    then have "(code, m) \<noteq> (code, n)" using Cons.prems(3) by auto
    then show "section_blocks (snd (ss_assign_section rl pre code c acc n)) (code, m) = None"
      using Cons.prems(2) m by (simp add: ss_assign_section_other)
  qed
  ultimately show ?case using Cons.IH Cons.prems(3) by simp
qed

lemma upto_split_last: "1 \<le> n \<Longrightarrow> [1..n] = [1..n - 1] @ [n]"
  by (simp add: upto_rec2)

lemma upto_split_at: "1 \<le> n \<Longrightarrow> n \<le> N \<Longrightarrow> [1..N] = [1..n] @ [n + 1..N]"
  using upto_split2[of 1 n N] by simp

lemma ss_section_result:
  assumes "course_requests pre = es1 @ (code, rs) # es2"
    and "distinct (map fst (course_requests pre))"
    and "course_details pre code = Some c"
    and "1 \<le> n" and "n \<le> num_sections c"
  shows "section_blocks (ss_generate_schedule rl pre) (code, n) =
         (case find (spec_eligible (ss_available rl c) (unavailable_blocks c)
                      (section_blocks (snd (ss_before_section rl pre es1 code c n))) code
                      (teacher_schedule (snd (ss_before_section rl pre es1 code c n))
                         (lecturer_of pre (code, n))))
                 (all_blocks rl) of
            None \<Rightarrow> None
          | Some b \<Rightarrow> if b = [] then None else Some b)"
proof -
  let ?st0 = "foldl (ss_first_pass rl pre) empty_schedule es1"
  let ?step = "ss_assign_section rl pre code c"
  let ?acc = "ss_before_section rl pre es1 code c n"
  let ?l = "lecturer_of pre (code, n)"
  have d: "code \<notin> fst ` set es1" "code \<notin> fst ` set es2"
    using assms(1,2) by auto
  have fresh: "section_blocks ?st0 (code, m) = None" for m
    using ss_first_pass_fold_other[of "(code, m)" es1 rl pre empty_schedule] d(1)
    by (simp add: empty_schedule_def)
  have c0: "claimed_ok code ({}, ?st0)"
    by (simp add: claimed_ok_def fresh)
  have cl: "claimed_ok code ?acc"
    unfolding ss_before_section_def
    by (rule ss_sections_claimed[OF c0]) (simp_all add: fresh)
  have un: "section_blocks (snd ?acc) (code, n) = None"
    unfolding ss_before_section_def
    using ss_sections_other[of "[1..n - 1]" "(code, n)" code rl pre c "({}, ?st0)"]
    by (simp add: fresh)
  have pred: "(\<lambda>b. b \<in> set (ss_available rl c) \<and> b \<notin> set (unavailable_blocks c) \<and> b \<notin> fst ?acc \<and>
                teacher_schedule (snd ?acc) ?l b = None) =
              spec_eligible (ss_available rl c) (unavailable_blocks c) (section_blocks (snd ?acc)) code
                (teacher_schedule (snd ?acc) ?l)"
    using cl by (intro ext) (auto simp: spec_eligible_def claimed_ok_def)
  have at_n: "section_blocks (snd (?step ?acc n)) (code, n) =
      (case find (spec_eligible (ss_available rl c) (unavailable_blocks c) (section_blocks (snd ?acc)) code
                    (teacher_schedule (snd ?acc) ?l)) (all_blocks rl) of
         None \<Rightarrow> None | Some b \<Rightarrow> if b = [] then None else Some b)"
    by (simp add: ss_assign_section_def bind_block_key ss_find_block_find pred un split: option.splits)
  have upto_n: "foldl ?step ({}, ?st0) [1..n] = ?step ?acc n"
    using assms(4) by (simp add: upto_split_last ss_before_section_def)
  have all: "foldl ?step ({}, ?st0) [1..num_sections c] =
      foldl ?step (?step ?acc n) [n + 1..num_sections c]"
    using upto_split_at[OF assms(4,5)] upto_n by simp
  have later: "section_blocks (snd (foldl ?step (?step ?acc n) [n + 1..num_sections c])) (code, n) =
      section_blocks (snd (?step ?acc n)) (code, n)"
    by (rule ss_sections_other) auto
  have course: "section_blocks (ss_first_pass rl pre ?st0 (code, rs)) (code, n) =
      section_blocks (snd (?step ?acc n)) (code, n)"
    using assms(3) by (simp add: ss_first_pass_def all later)
  have "section_blocks (ss_generate_schedule rl pre) (code, n) =
      section_blocks (foldl (ss_first_pass rl pre) empty_schedule (course_requests pre)) (code, n)"
    by (simp add: ss_generate_schedule_flat)
  also have "\<dots> = section_blocks (foldl (ss_first_pass rl pre) (ss_first_pass rl pre ?st0 (code, rs)) es2) (code, n)"
    by (simp add: assms(1))
  also have "\<dots> = section_blocks (ss_first_pass rl pre ?st0 (code, rs)) (code, n)"
    using d(2) by (intro ss_first_pass_fold_other) simp
  finally show ?thesis by (simp only: course at_n)
qed

















section \<open>C6: capacity\<close>

lemma assign_request_capacity:
  assumes "int (length (section_assignments st k)) \<le> max_size (course_or_default rl pre (fst k))"
  shows "int (length (section_assignments (assign_request code (course_or_default rl pre code) st req) k))
         \<le> max_size (course_or_default rl pre (fst k))"
proof (cases rule: assign_request_cases[of code "course_or_default rl pre code" st req])
  case unres
  then show ?thesis using assms by simp
next
  case (res student n b)
  then show ?thesis using assms by (cases "k = (code, n)") auto
qed

lemma run_attempts_capacity:
  assumes "int (length (section_assignments st k)) \<le> max_size (course_or_default rl pre (fst k))"
  shows "int (length (section_assignments (run_attempts rl pre st as) k))
         \<le> max_size (course_or_default rl pre (fst k))"
  using assms
  by (induction as rule: rev_induct) (simp_all add: run_attempts_snoc assign_request_capacity)

text \<open>
  Claim C6, capacity. With maximum section sizes that are not negative, at every point
  of the second pass of either engine (after the first \<open>n\<close> attempts) the roster of every
  section is at most as long as the maximum size of its course; in simple\_scheduler.py a
  section of a course without details has an empty roster, in milestone2.py such a
  course has the default size 25. The step behind it is \<open>assign_request_cases\<close>: a
  student is appended only to a roster shorter than the maximum size.
\<close>

theorem roster_capacity:
  assumes "\<forall>code c. course_details pre code = Some c \<longrightarrow> 0 \<le> max_size c"
  shows "(case course_details pre (fst k) of
            Some c \<Rightarrow> int (length (section_assignments (ss_progress rl pre n) k)) \<le> max_size c
          | None \<Rightarrow> section_assignments (ss_progress rl pre n) k = []) \<and>
         int (length (section_assignments (m2_progress rl pre n) k))
           \<le> max_size (course_or_default rl pre (fst k))"
proof
  have nonneg: "0 \<le> max_size (course_or_default rl pre code)" for code
    using assms by (simp add: course_or_default_def split: option.splits)
  show "case course_details pre (fst k) of
            Some c \<Rightarrow> int (length (section_assignments (ss_progress rl pre n) k)) \<le> max_size c
          | None \<Rightarrow> section_assignments (ss_progress rl pre n) k = []"
  proof (cases "course_details pre (fst k)")
    case None
    have "fst k \<notin> fst ` set (take n (ss_attempts rl pre))"
    proof
      assume "fst k \<in> fst ` set (take n (ss_attempts rl pre))"
      then obtain a where "a \<in> set (ss_attempts rl pre)" "fst a = fst k"
        by (auto dest: in_set_takeD)
      then show False using None ss_attempts_known[of a rl pre] by simp
    qed
    then show ?thesis using None
      by (simp add: ss_progress_def run_attempts_other_course empty_schedule_def)
  next
    case (Some c)
    have "int (length (section_assignments (ss_progress rl pre n) k)) \<le> max_size (course_or_default rl pre (fst k))"
      unfolding ss_progress_def by (rule run_attempts_capacity) (simp add: nonneg empty_schedule_def)
    then show ?thesis using Some by (simp add: course_or_default_def)
  qed
  show "int (length (section_assignments (m2_progress rl pre n) k))
           \<le> max_size (course_or_default rl pre (fst k))"
    unfolding m2_progress_def by (rule run_attempts_capacity) (simp add: nonneg empty_schedule_def)
qed

text \<open>The hypothesis of C6 holds for a course of 25 seats.\<close>

theorem roster_capacity_witness:
  "int (length (section_assignments (ss_progress ss_extract_rules_and_constraints
      (two_block_pre (ss_preprocess_requests two_tier_requests)) 2) (''BIB9'', 1))) \<le> 25 \<and>
   int (length (section_assignments (m2_progress ss_extract_rules_and_constraints
      (two_block_pre (ss_preprocess_requests two_tier_requests)) 2) (''BIB9'', 1))) \<le> 25"
proof -
  have h: "\<forall>code c. course_details (two_block_pre (ss_preprocess_requests two_tier_requests)) code = Some c
       \<longrightarrow> 0 \<le> max_size c"
    by (simp add: two_block_pre_def)
  show ?thesis
    using roster_capacity[OF h, where k = "(''BIB9'', 1)" and rl = ss_extract_rules_and_constraints and n = 2]
    by (simp add: two_block_pre_def course_or_default_def)
qed

section \<open>C7: no double booking of a student\<close>

lemma assign_request_seated:
  assumes "seated st"
  shows "seated (assign_request code c st req)"
proof (cases rule: assign_request_cases[of code c st req])
  case unres
  then show ?thesis using assms by (simp add: seated_def)
next
  case (res student n b)
  have notin: "student \<notin> set (section_assignments st (code, n))"
    using assms res(3,6) unfolding seated_def by (metis option.distinct(1) option.inject)
  show ?thesis
    unfolding seated_def
  proof (intro conjI allI impI)
    fix s k
    assume "s \<in> set (section_assignments (assign_request code c st req) k)"
    then consider "s \<in> set (section_assignments st k)" | "s = student" "k = (code, n)"
      using res(7) by (auto split: if_splits)
    then show "\<exists>b. section_blocks (assign_request code c st req) k = Some b \<and>
                  student_schedule (assign_request code c st req) s b = Some k"
    proof cases
      case 1
      then obtain b' where b': "section_blocks st k = Some b'" "student_schedule st s b' = Some k"
        using assms unfolding seated_def by blast
      then show ?thesis using res(6,7) by auto
    next
      case 2
      then show ?thesis using res(3,7) by simp
    qed
  next
    fix k
    have d: "distinct (section_assignments st k')" for k'
      using assms unfolding seated_def by blast
    show "distinct (section_assignments (assign_request code c st req) k)"
      using d[of k] d[of "(code, n)"] notin res(7) by (cases "k = (code, n)") simp_all
  qed
qed

lemma run_attempts_seated: "seated st \<Longrightarrow> seated (run_attempts rl pre st as)"
  by (induction as rule: rev_induct) (simp_all add: run_attempts_snoc assign_request_seated)

lemma seated_first_pass:
  "seated (foldl (ss_first_pass rl pre) empty_schedule es)"
  "seated (snd (m2_first_pass_all rl pre empty_schedule))"
  by (simp_all add: seated_def empty_schedule_def)

lemma seated_progress: "seated (ss_progress rl pre n)" "seated (m2_progress rl pre n)"
  by (simp_all add: ss_progress_def m2_progress_def run_attempts_seated seated_first_pass)

lemma seated_no_clash:
  assumes "seated st" "s \<in> set (section_assignments st k1)" "s \<in> set (section_assignments st k2)"
    "section_blocks st k1 = Some b" "section_blocks st k2 = Some b"
  shows "k1 = k2"
  using assms unfolding seated_def by (metis option.inject)

lemma distinct_count_list_1: "distinct xs \<Longrightarrow> x \<in> set xs \<Longrightarrow> count_list xs x = 1"
  by (induction xs) (auto simp: count_list_0_iff)

text \<open>
  Claim C7, no student is booked twice on a block. At every point of the second pass of
  either engine (after the first \<open>n\<close> attempts), a student who sits in the rosters of two
  sections bound to the same block sits in one and the same section, once in its roster,
  and the student's schedule maps the block to that section.
\<close>

theorem student_not_double_booked:
  assumes "st = ss_progress rl pre n \<or> st = m2_progress rl pre n"
    and "s \<in> set (section_assignments st k1)" and "s \<in> set (section_assignments st k2)"
    and "section_blocks st k1 = Some b" and "section_blocks st k2 = Some b"
  shows "k1 = k2 \<and> count_list (section_assignments st k1) s = 1 \<and> student_schedule st s b = Some k1"
proof -
  have st: "seated st" using assms(1) seated_progress by auto
  have "k1 = k2" using seated_no_clash[OF st assms(2-5)] .
  moreover have "distinct (section_assignments st k1)"
    using st unfolding seated_def by blast
  then have "count_list (section_assignments st k1) s = 1"
    using assms(2) by (rule distinct_count_list_1)
  moreover have "student_schedule st s b = Some k1"
    using st assms(2,4) unfolding seated_def by (metis option.inject)
  ultimately show ?thesis by simp
qed

lemma two_tier_ss_progress:
  "section_assignments (ss_progress ss_extract_rules_and_constraints
      (two_block_pre (ss_preprocess_requests two_tier_requests)) 2) (''BIB9'', 1) = [''S1'', ''S2'']"
  "section_blocks (ss_progress ss_extract_rules_and_constraints
      (two_block_pre (ss_preprocess_requests two_tier_requests)) 2) (''BIB9'', 1) = Some ''1A''"
  by (simp_all add: progress_eval ss_eval two_block_pre_def two_tier_requests_def)

text \<open>The hypotheses of C7 hold for the student \<^verbatim>\<open>S1\<close> after two attempts on one course.\<close>

theorem student_not_double_booked_witness:
  "''S1'' \<in> set (section_assignments (ss_progress ss_extract_rules_and_constraints
      (two_block_pre (ss_preprocess_requests two_tier_requests)) 2) (''BIB9'', 1)) \<and>
   section_blocks (ss_progress ss_extract_rules_and_constraints
      (two_block_pre (ss_preprocess_requests two_tier_requests)) 2) (''BIB9'', 1) = Some ''1A'' \<and>
   count_list (section_assignments (ss_progress ss_extract_rules_and_constraints
      (two_block_pre (ss_preprocess_requests two_tier_requests)) 2) (''BIB9'', 1)) ''S1'' = 1 \<and>
   student_schedule (ss_progress ss_extract_rules_and_constraints
      (two_block_pre (ss_preprocess_requests two_tier_requests)) 2) ''S1'' ''1A'' = Some (''BIB9'', 1)"
proof -
  let ?st = "ss_progress ss_extract_rules_and_constraints
      (two_block_pre (ss_preprocess_requests two_tier_requests)) 2"
  have m: "''S1'' \<in> set (section_assignments ?st (''BIB9'', 1))"
    by (simp add: two_tier_ss_progress)
  have b: "section_blocks ?st (''BIB9'', 1) = Some ''1A''"
    by (simp add: two_tier_ss_progress)
  show ?thesis
    using student_not_double_booked[where st = ?st and rl = ss_extract_rules_and_constraints
        and pre = "two_block_pre (ss_preprocess_requests two_tier_requests)" and n = 2
        and s = "''S1''" and ?k1.0 = "(''BIB9'', 1)" and ?k2.0 = "(''BIB9'', 1)" and b = "''1A''"]
      m b by simp
qed

section \<open>C8: the scenario BIB9\<close>

lemma bib9_group: "group_requests bib9_requests = [(''BIB9'', bib9_requests)]"
  by (simp add: group_requests_def group_step_def bib9_requests_def bib9_request_def)

lemma bib9_priority_key: "priority_order rl = tiers \<Longrightarrow> priority_key rl (bib9_request s) = 0"
  by (simp add: priority_key_def tiers_def bib9_request_def priority_map_def upt_rec)

lemma bib9_sorted: "priority_order rl = tiers \<Longrightarrow> sort_key (priority_key rl) bib9_requests = bib9_requests"
  by (simp add: bib9_requests_def bib9_priority_key)

lemma bib9_sections:
  "foldl f acc [1..num_sections bib9_course] = f (f acc 1) 2"
  by (simp add: bib9_course_def upto_1_2)

lemma bib9_ss_first:
  "bib9_bound (ss_first_pass ss_extract_rules_and_constraints (bib9_pre lect groups) empty_schedule (''BIB9'', rs))"
  unfolding ss_first_pass_def bib9_pre_def
  apply (simp add: bib9_sections)
  apply (simp add: ss_assign_section_def bind_block_def ss_available_def bib9_course_def
      ss_extract_rules_and_constraints_def empty_schedule_def bib9_bound_def)
  done

lemma bib9_m2_sections:
  "bib9_bound (snd (foldl (m2_assign_section (bib9_pre lect groups) ''BIB9'' bib9_course) ({}, empty_schedule) [1, 2]))"
  by (simp add: m2_assign_section_def bind_block_def bib9_course_def empty_schedule_def bib9_bound_def)

lemma bib9_second:
  assumes "bib9_bound st"
  shows "bib9_outcome (foldl (assign_request ''BIB9'' bib9_course) st bib9_requests)"
  using assms unfolding bib9_bound_def bib9_requests_def bib9_outcome_def
  by (simp add: assign_request_def bib9_request_def bib9_course_def upto_1_2)

lemma bib9_types:
  "filter (has_type ''Required'') bib9_requests = bib9_requests"
  "filter (has_type ''Requested'') bib9_requests = []"
  "filter (has_type ''Recommended'') bib9_requests = []"
  by (simp_all add: bib9_requests_def bib9_request_def has_type_def)

lemma bib9_cod: "course_or_default rl (bib9_pre lect groups) ''BIB9'' = bib9_course"
  by (simp add: course_or_default_def bib9_pre_def)

lemma bib9_needed: "min (num_sections bib9_course) ((int (length bib9_requests) + max_size bib9_course - 1) div max_size bib9_course) = 2"
  by (simp add: bib9_course_def bib9_requests_def)

lemma bib9_m2_first:
  assumes "priority_order rl = tiers"
  shows "bib9_bound (snd (m2_first_pass_all rl (bib9_pre lect [(''BIB9'', bib9_requests)]) empty_schedule))"
proof -
  let ?pre = "bib9_pre lect [(''BIB9'', bib9_requests)]"
  have cr: "course_requests ?pre = [(''BIB9'', bib9_requests)]"
    by (simp add: bib9_pre_def)
  have nz: "max_size bib9_course \<noteq> 0" by (simp add: bib9_course_def)
  have ne: "bib9_requests \<noteq> []" by (simp add: bib9_requests_def)
  have step1: "m2_first_pass rl ?pre ''Required'' (False, empty_schedule) (''BIB9'', bib9_requests) =
      (False, snd (foldl (m2_assign_section ?pre ''BIB9'' bib9_course) ({}, empty_schedule) [1, 2]))"
    by (simp add: m2_first_pass_def bib9_types bib9_cod bib9_needed nz ne upto_1_2)
  have step2: "m2_first_pass rl ?pre ''Requested'' (False, st) (''BIB9'', bib9_requests) = (False, st)" for st
    by (simp add: m2_first_pass_def bib9_types)
  have step3: "m2_first_pass rl ?pre ''Recommended'' (False, st) (''BIB9'', bib9_requests) = (False, st)" for st
    by (simp add: m2_first_pass_def bib9_types)
  have "m2_first_pass_all rl ?pre empty_schedule =
      (False, snd (foldl (m2_assign_section ?pre ''BIB9'' bib9_course) ({}, empty_schedule) [1, 2]))"
    by (simp add: m2_first_pass_all_def assms tiers_def cr step1 step2 step3)
  then show ?thesis by (simp only: snd_conv bib9_m2_sections)
qed

text \<open>
  Claim C8. On the scenario, either engine binds section 1 to block \<^verbatim>\<open>1A\<close> and section 2
  to block \<^verbatim>\<open>1B\<close>, puts \<^verbatim>\<open>S1\<close>, \<^verbatim>\<open>S2\<close> into section 1 and \<^verbatim>\<open>S3\<close>, \<^verbatim>\<open>S4\<close> into
  section 2, resolves these four requests and leaves the request of \<^verbatim>\<open>S5\<close> unresolved,
  whatever lecturers are on record.
\<close>

theorem bib9_scenario:
  "bib9_outcome (ss_generate_schedule ss_extract_rules_and_constraints
       (bib9_pre lect (ss_preprocess_requests bib9_requests))) \<and>
   bib9_outcome (m2_generate_schedule True \<lparr>all_blocks = blocks, priority_order = tiers\<rparr>
       (bib9_pre lect (m2_preprocess_requests \<lparr>all_blocks = blocks, priority_order = tiers\<rparr> bib9_requests)))"
proof
  let ?pre = "bib9_pre lect [(''BIB9'', bib9_requests)]"
  let ?rl = "ss_extract_rules_and_constraints"
  have cd: "course_details ?pre ''BIB9'' = Some bib9_course"
    by (simp add: bib9_pre_def)
  have cr: "course_requests ?pre = [(''BIB9'', bib9_requests)]"
    by (simp add: bib9_pre_def)
  have po: "priority_order ?rl = tiers"
    by (simp add: ss_extract_rules_and_constraints_def tiers_def)
  have "ss_generate_schedule ?rl ?pre =
      foldl (assign_request ''BIB9'' bib9_course)
        (ss_first_pass ?rl ?pre empty_schedule (''BIB9'', bib9_requests)) bib9_requests"
    by (simp add: ss_generate_schedule_def ss_second_pass_def cr cd bib9_sorted[OF po])
  then show "bib9_outcome (ss_generate_schedule ?rl (bib9_pre lect (ss_preprocess_requests bib9_requests)))"
    by (simp add: ss_preprocess_requests_def bib9_group bib9_second bib9_ss_first)
next
  let ?pre = "bib9_pre lect [(''BIB9'', bib9_requests)]"
  let ?rl = "\<lparr>all_blocks = blocks, priority_order = tiers\<rparr>"
  have po: "priority_order ?rl = tiers" by simp
  have cr: "course_requests ?pre = [(''BIB9'', bib9_requests)]"
    by (simp add: bib9_pre_def)
  have pp: "m2_preprocess_requests ?rl bib9_requests = [(''BIB9'', bib9_requests)]"
    by (simp add: m2_preprocess_requests_def bib9_group bib9_sorted[OF po])
  have "m2_generate_schedule True ?rl ?pre =
      foldl (assign_request ''BIB9'' bib9_course)
        (snd (m2_first_pass_all ?rl ?pre empty_schedule)) bib9_requests"
    by (simp add: m2_generate_schedule_def m2_second_pass_all_def cr tiers_def m2_second_pass_def
          bib9_types bib9_cod)
  then show "bib9_outcome (m2_generate_schedule True ?rl (bib9_pre lect (m2_preprocess_requests ?rl bib9_requests)))"
    by (simp only: pp bib9_second[OF bib9_m2_first[OF po]])
qed

section \<open>C9: requests without a course code\<close>

lemma group_add_mset:
  "mset (concat (map snd (group_add k r g))) = add_mset r (mset (concat (map snd g)))"
  by (induction k r g rule: group_add.induct) simp_all

lemma group_requests_mset_aux:
  "mset (concat (map snd (foldl group_step g rs))) =
   mset (concat (map snd g)) + mset (filter (\<lambda>r. truthy (Course_code r) \<noteq> None) rs)"
  by (induction rs arbitrary: g) (auto simp: group_step_def group_add_mset split: option.splits)

lemma group_requests_mset:
  "mset (concat (map snd (group_requests rs))) = mset (filter (\<lambda>r. truthy (Course_code r) \<noteq> None) rs)"
  by (simp add: group_requests_def group_requests_mset_aux)

lemma m2_preprocess_requests_mset:
  "mset (concat (map snd (m2_preprocess_requests rl rs))) = mset (filter (\<lambda>r. truthy (Course_code r) \<noteq> None) rs)"
proof -
  have "mset (concat (map snd (map (\<lambda>entry. (fst entry, sort_key f (snd entry))) g))) = mset (concat (map snd g))"
    for f :: "request \<Rightarrow> nat" and g :: "(string \<times> request list) list"
    by (induction g) auto
  then show ?thesis by (simp add: m2_preprocess_requests_def group_requests_mset)
qed

text \<open>
  Claim C9, requests without a course code. A request whose course code is absent,
  \<^verbatim>\<open>None\<close> or empty is left out of the groups by either \<^verbatim>\<open>preprocess_data\<close>, and is
  in neither the resolved nor the unresolved list of either engine.
\<close>

theorem dropped_request:
  assumes "truthy (Course_code r) = None"
  shows "r \<notin> set (concat (map snd (ss_preprocess_requests student_requests))) \<and>
         r \<notin> set (concat (map snd (m2_preprocess_requests rl student_requests))) \<and>
         r \<notin> set (resolved (ss_generate_schedule rl
               \<lparr>course_to_lecturer = lect, course_details = details,
                course_requests = ss_preprocess_requests student_requests\<rparr>)) \<and>
         r \<notin> set (unresolved (ss_generate_schedule rl
               \<lparr>course_to_lecturer = lect, course_details = details,
                course_requests = ss_preprocess_requests student_requests\<rparr>)) \<and>
         r \<notin> set (resolved (m2_generate_schedule data_given rl
               \<lparr>course_to_lecturer = lect, course_details = details,
                course_requests = m2_preprocess_requests rl student_requests\<rparr>)) \<and>
         r \<notin> set (unresolved (m2_generate_schedule data_given rl
               \<lparr>course_to_lecturer = lect, course_details = details,
                course_requests = m2_preprocess_requests rl student_requests\<rparr>))"
proof -
  let ?ss = "\<lparr>course_to_lecturer = lect, course_details = details,
                course_requests = ss_preprocess_requests student_requests\<rparr>"
  let ?m2 = "\<lparr>course_to_lecturer = lect, course_details = details,
                course_requests = m2_preprocess_requests rl student_requests\<rparr>"
  have a: "r \<notin> set (concat (map snd (ss_preprocess_requests student_requests)))"
  proof
    assume "r \<in> set (concat (map snd (ss_preprocess_requests student_requests)))"
    then have "r \<in># mset (concat (map snd (group_requests student_requests)))"
      by (simp add: ss_preprocess_requests_def)
    then show False using assms by (simp add: group_requests_mset)
  qed
  have b: "r \<notin> set (concat (map snd (m2_preprocess_requests rl student_requests)))"
  proof
    assume "r \<in> set (concat (map snd (m2_preprocess_requests rl student_requests)))"
    then have "r \<in># mset (concat (map snd (m2_preprocess_requests rl student_requests)))"
      by simp
    then show False using assms by (simp add: m2_preprocess_requests_mset)
  qed
  have "set (resolved (ss_generate_schedule rl ?ss)) \<union> set (unresolved (ss_generate_schedule rl ?ss)) =
        set_mset (mset (resolved (ss_generate_schedule rl ?ss)) + mset (unresolved (ss_generate_schedule rl ?ss)))"
    by simp
  also have "\<dots> = set (concat (map snd (ss_preprocess_requests student_requests)))"
    by (simp only: ss_partition) simp
  finally have c: "r \<notin> set (resolved (ss_generate_schedule rl ?ss)) \<union> set (unresolved (ss_generate_schedule rl ?ss))"
    using a by simp
  have d: "r \<notin> set (resolved (m2_generate_schedule data_given rl ?m2)) \<union> set (unresolved (m2_generate_schedule data_given rl ?m2))"
    using m2_outputs_subset[of data_given rl ?m2] b by auto
  show ?thesis using a b c d by simp
qed

text \<open>The hypothesis of C9 holds for a request with an empty course code.\<close>

theorem dropped_request_witness:
  "truthy (Course_code uncoded_request) = None \<and>
   uncoded_request \<notin> set (concat (map snd (ss_preprocess_requests [uncoded_request, stray_request]))) \<and>
   uncoded_request \<notin> set (resolved (ss_generate_schedule ss_extract_rules_and_constraints
       \<lparr>course_to_lecturer = Map.empty, course_details = Map.empty,
        course_requests = ss_preprocess_requests [uncoded_request, stray_request]\<rparr>)) \<and>
   uncoded_request \<notin> set (unresolved (ss_generate_schedule ss_extract_rules_and_constraints
       \<lparr>course_to_lecturer = Map.empty, course_details = Map.empty,
        course_requests = ss_preprocess_requests [uncoded_request, stray_request]\<rparr>)) \<and>
   uncoded_request \<notin> set (resolved (m2_generate_schedule True (m2_rules [''1A''])
       \<lparr>course_to_lecturer = Map.empty, course_details = Map.empty,
        course_requests = m2_preprocess_requests (m2_rules [''1A'']) [uncoded_request, stray_request]\<rparr>)) \<and>
   uncoded_request \<notin> set (unresolved (m2_generate_schedule True (m2_rules [''1A''])
       \<lparr>course_to_lecturer = Map.empty, course_details = Map.empty,
        course_requests = m2_preprocess_requests (m2_rules [''1A'']) [uncoded_request, stray_request]\<rparr>))"
proof -
  have h: "truthy (Course_code uncoded_request) = None"
    by (simp add: uncoded_request_def)
  show ?thesis
    using h dropped_request[OF h, where student_requests = "[uncoded_request, stray_request]"
        and rl = ss_extract_rules_and_constraints and lect = Map.empty and details = Map.empty and data_given = True]
      dropped_request[OF h, where student_requests = "[uncoded_request, stray_request]"
        and rl = "m2_rules [''1A'']" and lect = Map.empty and details = Map.empty and data_given = True]
    by simp
qed

section \<open>C10: an empty list of available blocks\<close>

lemma ss_first_pass_substituted:
  assumes "course_details pre code = Some c" "available_blocks c = []"
  shows "ss_first_pass rl (pre\<lparr>course_details := (course_details pre)(code \<mapsto> c\<lparr>available_blocks := all_blocks rl\<rparr>)\<rparr>) st e =
         ss_first_pass rl pre st e"
proof (cases "fst e = code")
  case True
  let ?c2 = "c\<lparr>available_blocks := all_blocks rl\<rparr>"
  let ?p2 = "pre\<lparr>course_details := (course_details pre)(code \<mapsto> ?c2)\<rparr>"
  have av: "ss_available rl ?c2 = ss_available rl c"
    using assms(2) by (simp add: ss_available_def)
  have step: "ss_assign_section rl ?p2 code ?c2 = ss_assign_section rl pre code c"
    by (intro ext) (simp add: ss_assign_section_def av lecturer_of_def)
  show ?thesis using True assms(1) by (simp add: ss_first_pass_def step)
next
  case False
  have "ss_assign_section rl (pre\<lparr>course_details := d\<rparr>) (fst e) c' = ss_assign_section rl pre (fst e) c'" for d c'
    by (intro ext) (simp add: ss_assign_section_def lecturer_of_def)
  then show ?thesis using False by (simp add: ss_first_pass_def split: option.splits)
qed

lemma ss_second_pass_substituted:
  assumes "course_details pre code = Some c"
  shows "ss_second_pass rl (pre\<lparr>course_details := (course_details pre)(code \<mapsto> c\<lparr>available_blocks := blocks\<rparr>)\<rparr>) st e =
         ss_second_pass rl pre st e"
proof -
  have "assign_request k (c\<lparr>available_blocks := blocks\<rparr>) = assign_request k c" for k
    by (intro ext) (simp add: assign_request_def cong: option.case_cong)
  then show ?thesis using assms by (simp add: ss_second_pass_def split: option.splits)
qed

lemma ss_generate_schedule_substituted:
  assumes "course_details pre code = Some c" "available_blocks c = []"
  shows "ss_generate_schedule rl (pre\<lparr>course_details := (course_details pre)(code \<mapsto> c\<lparr>available_blocks := all_blocks rl\<rparr>)\<rparr>) =
         ss_generate_schedule rl pre"
proof -
  let ?p2 = "pre\<lparr>course_details := (course_details pre)(code \<mapsto> c\<lparr>available_blocks := all_blocks rl\<rparr>)\<rparr>"
  have f: "ss_first_pass rl ?p2 = ss_first_pass rl pre"
    by (intro ext) (rule ss_first_pass_substituted[OF assms])
  have s: "ss_second_pass rl ?p2 = ss_second_pass rl pre"
    by (intro ext) (rule ss_second_pass_substituted[OF assms(1)])
  show ?thesis by (simp add: ss_generate_schedule_def f s)
qed

text \<open>
  Claim C10, an empty list of available blocks. For a course with details whose list
  of available blocks is empty, \<^verbatim>\<open>generate_schedule\<close> of simple\_scheduler.py gives the
  result it gives when the course lists every global block as available; and the
  block that a section \<open>n\<close> of the course has at the end of the run is the first block
  of the global list that is not excluded, not bound to an earlier section of the
  course and free in the schedule of the section's lecturer when the section is
  reached (if its name is not empty), a block that is not in the course's own list.
\<close>

theorem empty_available_blocks:
  assumes "course_requests pre = es1 @ (code, rs) # es2"
    and "distinct (map fst (course_requests pre))"
    and "course_details pre code = Some c"
    and "available_blocks c = []"
    and "1 \<le> n" and "n \<le> num_sections c"
  shows "ss_generate_schedule rl pre =
           ss_generate_schedule rl
             (pre\<lparr>course_details := (course_details pre)(code \<mapsto> c\<lparr>available_blocks := all_blocks rl\<rparr>)\<rparr>) \<and>
         (section_blocks (ss_generate_schedule rl pre) (code, n) = Some b \<longleftrightarrow>
            b \<noteq> [] \<and>
            spec_first_fit (all_blocks rl)
              (spec_eligible_open (unavailable_blocks c)
                 (section_blocks (snd (ss_before_section rl pre es1 code c n))) code
                 (teacher_schedule (snd (ss_before_section rl pre es1 code c n))
                    (lecturer_of pre (code, n)))) b)"
proof
  show "ss_generate_schedule rl pre =
           ss_generate_schedule rl
             (pre\<lparr>course_details := (course_details pre)(code \<mapsto> c\<lparr>available_blocks := all_blocks rl\<rparr>)\<rparr>)"
    by (rule ss_generate_schedule_substituted[OF assms(3,4), symmetric])
  let ?bind = "section_blocks (snd (ss_before_section rl pre es1 code c n))"
  let ?busy = "teacher_schedule (snd (ss_before_section rl pre es1 code c n)) (lecturer_of pre (code, n))"
  have av: "ss_available rl c = all_blocks rl"
    using assms(4) by (simp add: ss_available_def)
  have f: "find (spec_eligible (all_blocks rl) (unavailable_blocks c) ?bind code ?busy) (all_blocks rl) =
           find (spec_eligible_open (unavailable_blocks c) ?bind code ?busy) (all_blocks rl)"
    by (rule find_member_cong) (simp add: spec_eligible_def spec_eligible_open_def)
  show "section_blocks (ss_generate_schedule rl pre) (code, n) = Some b \<longleftrightarrow>
            b \<noteq> [] \<and> spec_first_fit (all_blocks rl) (spec_eligible_open (unavailable_blocks c) ?bind code ?busy) b"
    unfolding ss_section_result[OF assms(1,2,3,5,6)] av f find_first_fit[symmetric]
    by (cases "find (spec_eligible_open (unavailable_blocks c) ?bind code ?busy) (all_blocks rl)") auto
qed

text \<open>
  The hypotheses of C10 hold for a course with no available block listed and \<^verbatim>\<open>1A\<close>
  excluded: its section is bound to \<^verbatim>\<open>1B\<close>.
\<close>

theorem empty_available_blocks_witness:
  "available_blocks open_course = [] \<and>
   spec_first_fit (all_blocks ss_extract_rules_and_constraints)
      (spec_eligible_open (unavailable_blocks open_course)
         (section_blocks (snd (ss_before_section ss_extract_rules_and_constraints
            (one_course_pre open_course [(''BIB9'', [bib9_s1_request])]) [] ''BIB9'' open_course 1)))
         ''BIB9''
         (teacher_schedule (snd (ss_before_section ss_extract_rules_and_constraints
            (one_course_pre open_course [(''BIB9'', [bib9_s1_request])]) [] ''BIB9'' open_course 1))
            (lecturer_of (one_course_pre open_course [(''BIB9'', [bib9_s1_request])]) (''BIB9'', 1))))
      ''1B'' \<and>
   section_blocks (ss_generate_schedule ss_extract_rules_and_constraints
      (one_course_pre open_course [(''BIB9'', [bib9_s1_request])])) (''BIB9'', 1) = Some ''1B''"
proof -
  let ?pre = "one_course_pre open_course [(''BIB9'', [bib9_s1_request])]"
  let ?rl = ss_extract_rules_and_constraints
  let ?ok = "spec_eligible_open (unavailable_blocks open_course)
         (section_blocks (snd (ss_before_section ?rl ?pre [] ''BIB9'' open_course 1))) ''BIB9''
         (teacher_schedule (snd (ss_before_section ?rl ?pre [] ''BIB9'' open_course 1))
            (lecturer_of ?pre (''BIB9'', 1)))"
  have h1: "course_requests ?pre = [] @ (''BIB9'', [bib9_s1_request]) # []"
    by (simp add: one_course_pre_def)
  have h2: "distinct (map fst (course_requests ?pre))" by (simp add: h1)
  have h3: "course_details ?pre ''BIB9'' = Some open_course" by (simp add: one_course_pre_def)
  have h4: "available_blocks open_course = []" by (simp add: open_course_def)
  have h5: "(1::int) \<le> 1" by simp
  have h6: "1 \<le> num_sections open_course" by (simp add: open_course_def)
  have "find ?ok (all_blocks ?rl) = Some ''1B''"
    by (simp add: spec_eligible_open_def ss_before_section_def open_course_def
        ss_extract_rules_and_constraints_def empty_schedule_def upto.simps)
  then have fit: "''1B'' \<noteq> [] \<and> spec_first_fit (all_blocks ?rl) ?ok ''1B''"
    by (simp only: find_first_fit) simp
  show ?thesis
    using h4 fit empty_available_blocks[OF h1 h2 h3 h4 h5 h6, where rl = ?rl and b = "''1B''"]
    by blast
qed

end
